theory Spec2Isabelle
  imports Complex_Main "HOL-Library.Multiset" "HOL-Library.Signed_Division"
begin

section \<open>The self-metrics channel (metchan/metchan.go)\<close>

text \<open>
  An instant of Go's \<open>time.Time\<close> is the number of nanoseconds since Go's zero Time, so that
  the zero value of the type is \<open>0\<close>; a \<open>time.Duration\<close> is a number of nanoseconds. The
  location and the monotonic reading of a Time are left out: two instants are equal in the
  model when they are the same instant. A \<open>float64\<close> is a \<open>real\<close>. The records
  \<open>bucket_Id\<close> and \<open>Bucket\<close> hold the fields of \<open>bucket.Id\<close> and \<open>bucket.Bucket\<close>
  that the channel reads and writes.
\<close>

type_synonym gotime = int
type_synonym duration = int

definition Truncate :: "gotime \<Rightarrow> duration \<Rightarrow> gotime" where
  \<comment> \<open>\<open>t.Truncate(d)\<close>: \<open>t\<close> rounded down to a multiple of \<open>d\<close> since the zero Time;
      \<open>t\<close> itself when \<open>d <= 0\<close>.\<close>
  "Truncate t d = (if d \<le> 0 then t else t - t mod d)"

definition Unix :: "gotime \<Rightarrow> int" where
  \<comment> \<open>\<open>t.Unix()\<close>: seconds since 1970; the zero Time is 62135596800 seconds before that.\<close>
  "Unix t = t div 1000000000 - 62135596800"

record bucket_Id =
  Name :: string
  Source :: string
  Units :: string
  Resolution :: duration
  Time :: gotime

record Bucket =
  Id_of :: bucket_Id
  Vals :: "real list"

text \<open>
  Modelled from the spec: the methods \<open>Count\<close>, \<open>Sum\<close>, \<open>Max\<close> and \<open>Min\<close> of
  \<open>bucket.Bucket\<close>; the package \<open>bucket\<close> is not among the sources. The spec gives
  \<open>Count() = len(Vals)\<close> and calls the four of them pure reducers over the current value
  sequence, zero-valued on the empty sequence.
\<close>

definition Bucket_Count :: "Bucket \<Rightarrow> int" where
  \<comment> \<open>Modelled from the spec: \<open>Count() = len(Vals)\<close>; \<open>bucket.Bucket\<close> is not among the sources.\<close>
  "Bucket_Count b = int (length (Vals b))"

definition Bucket_Sum :: "Bucket \<Rightarrow> real" where
  \<comment> \<open>Modelled from the spec: \<open>Sum\<close>, the total of the value sequence.\<close>
  "Bucket_Sum b = sum_list (Vals b)"

definition Bucket_Max :: "Bucket \<Rightarrow> real" where
  \<comment> \<open>Modelled from the spec: \<open>Max\<close>, the greatest value, zero on the empty sequence.\<close>
  "Bucket_Max b = (case Vals b of [] \<Rightarrow> 0 | v # vs \<Rightarrow> fold max vs v)"

definition Bucket_Min :: "Bucket \<Rightarrow> real" where
  \<comment> \<open>Modelled from the spec: \<open>Min\<close>, the least value, zero on the empty sequence.\<close>
  "Bucket_Min b = (case Vals b of [] \<Rightarrow> 0 | v # vs \<Rightarrow> fold min vs v)"

record libratoMetric =
  lm_Name :: string
  lm_Time :: int
  lm_Source :: string
  lm_Count :: int
  lm_Sum :: real
  lm_Max :: real
  lm_Min :: real

record libratoGauge =
  Gauges :: "libratoMetric list"

text \<open>
  The channel. The mutex is not modelled: \<open>add\<close> and \<open>flush\<close> hold it from entry to
  return, so each of them is one atomic step on the channel. The outbox is not a field
  either: \<open>flush\<close> returns the metrics it sends on it, in the order it sends them. A send
  waits while the outbox is full; the model describes the call once its sends are through.
\<close>

record Channel =
  FlushInterval :: duration
  username :: string
  password :: string
  verbose :: bool
  Enabled :: bool
  Buffer :: "string \<rightharpoonup> Bucket"
  url :: string
  source :: string
  appName :: string

definition bucket_key :: "bucket_Id \<Rightarrow> string" where
  \<comment> \<open>\<open>key := id.Name + ":" + id.Source\<close>\<close>
  "bucket_key i = Name i @ '':'' @ Source i"

definition add :: "Channel \<Rightarrow> bucket_Id \<Rightarrow> real \<Rightarrow> gotime \<Rightarrow> Channel" where
  \<comment> \<open>\<open>now\<close> is what \<open>time.Now()\<close> returns during the call. A bucket that is not in the
      buffer is made with \<open>make([]float64, 1, 10000)\<close>: one element, the zero value.\<close>
  "add c i val now =
     (let key = bucket_key i;
          b = (case Buffer c key of
                 Some b \<Rightarrow> b
               | None \<Rightarrow> \<lparr>Id_of = i, Vals = [0]\<rparr>);
          latest = Truncate now (FlushInterval c);
          b = (if Time (Id_of b) \<noteq> latest
               then b\<lparr>Id_of := (Id_of b)\<lparr>Time := latest\<rparr>, Vals := []\<rparr>
               else b);
          b = b\<lparr>Vals := Vals b @ [val]\<rparr>
      in c\<lparr>Buffer := (Buffer c)(key \<mapsto> b)\<rparr>)"

definition new_Id :: "duration \<Rightarrow> string \<Rightarrow> string \<Rightarrow> string \<Rightarrow> bucket_Id" where
  \<comment> \<open>the literal \<open>&bucket.Id{Resolution: .., Name: .., Units: .., Source: ..}\<close>: the field
      \<open>Time\<close> is not given and has the zero value\<close>
  "new_Id r n u s = \<lparr>Name = n, Source = s, Units = u, Resolution = r, Time = 0\<rparr>"

definition Measure :: "Channel \<Rightarrow> string \<Rightarrow> real \<Rightarrow> gotime \<Rightarrow> Channel" where
  \<comment> \<open>the line printed in verbose mode is not part of the channel and is left out\<close>
  "Measure c name v now =
     (if \<not> Enabled c then c
      else add c (new_Id (FlushInterval c) (appName c @ ''.'' @ name) ''ms'' (source c)) v now)"

fun replace_at :: "string \<Rightarrow> string" where
  \<comment> \<open>\<open>strings.Replace(user, "@", "_at_", -1)\<close>\<close>
  "replace_at [] = []"
| "replace_at (ch # s) = (if ch = CHR ''@'' then ''_at_'' @ replace_at s else ch # replace_at s)"

definition CountReq :: "Channel \<Rightarrow> string \<Rightarrow> gotime \<Rightarrow> Channel" where
  "CountReq c user now =
     add c (new_Id (FlushInterval c) (appName c @ ''.'' @ ''receiver.requests'') ''requests''
              (replace_at user)) 1 now"

text \<open>A run of \<open>add\<close> calls: each call with its identity, its value and the clock it reads.\<close>

fun adds :: "Channel \<Rightarrow> (bucket_Id \<times> real \<times> gotime) list \<Rightarrow> Channel" where
  "adds c [] = c"
| "adds c ((i, v, now) # calls) = adds (add c i v now) calls"

definition vals_for :: "string \<Rightarrow> (bucket_Id \<times> real \<times> gotime) list \<Rightarrow> real list" where
  \<comment> \<open>the values that the calls of a run add under one key, in the order of the calls\<close>
  "vals_for k calls = map (\<lambda>(i, v, now). v) (filter (\<lambda>(i, v, now). bucket_key i = k) calls)"

definition stored_time :: "Channel \<Rightarrow> bucket_Id \<Rightarrow> gotime" where
  \<comment> \<open>the time that \<open>add\<close> compares with the truncated clock: the time of the bucket under
      the identity's key, and the identity's own time when \<open>add\<close> has to make the bucket\<close>
  "stored_time c i = (case Buffer c (bucket_key i) of Some b \<Rightarrow> Time (Id_of b) | None \<Rightarrow> Time i)"

definition toMetric :: "Bucket \<Rightarrow> libratoMetric" where
  \<comment> \<open>the literal \<open>&libratoMetric{..}\<close> in \<open>flush\<close>\<close>
  "toMetric b =
     \<lparr>lm_Name = Name (Id_of b), lm_Time = Unix (Time (Id_of b)), lm_Source = Source (Id_of b),
      lm_Count = Bucket_Count b, lm_Sum = Bucket_Sum b, lm_Max = Bucket_Max b,
      lm_Min = Bucket_Min b\<rparr>"

definition flush :: "Channel \<Rightarrow> string list \<Rightarrow> Channel \<times> libratoMetric list" where
  \<comment> \<open>\<open>for _, b := range c.Buffer\<close> visits the buckets in an order that Go leaves open:
      \<open>ks\<close> is the order of the keys in this run of the loop. The result is the channel
      after the call and the metrics sent on the outbox.\<close>
  "flush c ks = (c, List.map_filter (\<lambda>k. map_option toMetric (Buffer c k)) ks)"

subsection \<open>Posting a metric\<close>

text \<open>
  The three library calls of \<open>post\<close> are parameters: \<open>json.Marshal\<close>, the check of the URL
  in \<open>http.NewRequest\<close>, and \<open>http.DefaultClient.Do\<close>, whose answer may depend on the
  requests made before. An error of a library is its message. \<open>StatusError code body\<close> is
  the error \<open>post\<close> makes itself with \<open>errors.New\<close>: its message is formatted from the
  status code alone when \<open>ioutil.ReadAll\<close> fails (\<open>body = None\<close>), and from the status
  code, the response body and the request buffer otherwise.
\<close>

datatype post_error = LibError string | StatusError int "string option"

record http_request =
  Method :: string
  URL :: string
  Header :: "(string \<times> string) list"
  BasicAuth :: "(string \<times> string) option"
  ReqBody :: string

record http_response =
  StatusCode :: int
  RespBody :: "string + string"

record libraries =
  json_Marshal :: "libratoGauge \<Rightarrow> string + string"
  url_error :: "string \<Rightarrow> string option"
  client_Do :: "http_request list \<Rightarrow> http_request \<Rightarrow> string + http_response"

definition NewRequest :: "libraries \<Rightarrow> string \<Rightarrow> string \<Rightarrow> string \<Rightarrow> string + http_request" where
  "NewRequest lib m u b =
     (case url_error lib u of
        Some e \<Rightarrow> Inl e
      | None \<Rightarrow> Inr \<lparr>Method = m, URL = u, Header = [], BasicAuth = None, ReqBody = b\<rparr>)"

definition post ::
  "libraries \<Rightarrow> Channel \<Rightarrow> http_request list \<Rightarrow> libratoMetric \<Rightarrow> http_request list \<times> post_error option"
where
  \<comment> \<open>The list is the requests handed to the client so far, the last one last. Go divides
      integers towards zero: \<open>sdiv\<close>.\<close>
  "post lib c sent m =
     (let p = \<lparr>Gauges = [m]\<rparr> in
      case json_Marshal lib p of
        Inl err \<Rightarrow> (sent, Some (LibError err))
      | Inr j \<Rightarrow>
          (case NewRequest lib ''POST'' (url c) j of
             Inl err \<Rightarrow> (sent, Some (LibError err))
           | Inr req \<Rightarrow>
               (let req = req\<lparr>Header := Header req @ [(''Content-Type'', ''application/json'')]\<rparr>;
                    req = req\<lparr>Header := Header req @ [(''User-Agent'', ''l2met-metchan/0'')]\<rparr>;
                    req = req\<lparr>BasicAuth := Some (username c, password c)\<rparr>
                in case client_Do lib sent req of
                     Inl err \<Rightarrow> (sent @ [req], Some (LibError err))
                   | Inr resp \<Rightarrow>
                       if StatusCode resp sdiv 100 \<noteq> 2
                       then (case RespBody resp of
                               Inl err \<Rightarrow> (sent @ [req], Some (StatusError (StatusCode resp) None))
                             | Inr s \<Rightarrow> (sent @ [req], Some (StatusError (StatusCode resp) (Some s))))
                       else (sent @ [req], None))))"

datatype outlet_line = OutletMetric libratoMetric | PostError post_error

fun outlet ::
  "libraries \<Rightarrow> Channel \<Rightarrow> http_request list \<Rightarrow> libratoMetric list
     \<Rightarrow> http_request list \<times> outlet_line list"
where
  \<comment> \<open>\<open>for met := range c.outbox\<close> over the metrics that arrive on the outbox; the result
      is the requests handed to the client and the lines printed\<close>
  "outlet lib c sent [] = (sent, [])"
| "outlet lib c sent (met # mets) =
     (case post lib c sent met of
        (sent', Some err) \<Rightarrow>
          (case outlet lib c sent' mets of
             (sent'', ls) \<Rightarrow> (sent'', OutletMetric met # PostError err # ls))
      | (sent', None) \<Rightarrow>
          (case outlet lib c sent' mets of
             (sent'', ls) \<Rightarrow> (sent'', OutletMetric met # ls)))"

definition request_for :: "Channel \<Rightarrow> string \<Rightarrow> http_request" where
  \<comment> \<open>the request \<open>post\<close> hands to the client for a marshalled batch\<close>
  "request_for c j =
     \<lparr>Method = ''POST'', URL = url c,
      Header = [(''Content-Type'', ''application/json''), (''User-Agent'', ''l2met-metchan/0'')],
      BasicAuth = Some (username c, password c), ReqBody = j\<rparr>"

definition outlet_metrics :: "outlet_line list \<Rightarrow> libratoMetric list" where
  \<comment> \<open>the metrics that a run of the loop took from the outbox, in the order of its lines\<close>
  "outlet_metrics ls =
     List.map_filter (\<lambda>l. case l of OutletMetric m \<Rightarrow> Some m | PostError e \<Rightarrow> None) ls"

section \<open>The auth resolver (utils: ParseAuth)\<close>

fun Split :: "char \<Rightarrow> string \<Rightarrow> string list" where
  \<comment> \<open>\<open>strings.Split(s, sep)\<close> for a separator of one character: the pieces between the
      separators, at least one piece\<close>
  "Split sep [] = [] # []"
| "Split sep (ch # s) =
     (if ch = sep then [] # Split sep s
      else (case Split sep s of
              [] \<Rightarrow> [ch] # []
            | p # ps \<Rightarrow> (ch # p) # ps))"

definition SplitN2 :: "char \<Rightarrow> string \<Rightarrow> string list" where
  \<comment> \<open>\<open>strings.SplitN(s, sep, 2)\<close>: cut at the first separator only\<close>
  "SplitN2 sep s =
     (case dropWhile (\<lambda>ch. ch \<noteq> sep) s of
        [] \<Rightarrow> [s]
      | _ # rest \<Rightarrow> [takeWhile (\<lambda>ch. ch \<noteq> sep) s, rest])"

definition b64_value :: "char \<Rightarrow> nat option" where
  \<comment> \<open>the alphabet of \<open>base64.StdEncoding\<close>: A-Z, a-z, 0-9, + and /\<close>
  "b64_value ch =
     (let n = (of_char ch :: nat) in
      if 65 \<le> n \<and> n \<le> 90 then Some (n - 65)
      else if 97 \<le> n \<and> n \<le> 122 then Some (n - 71)
      else if 48 \<le> n \<and> n \<le> 57 then Some (n + 4)
      else if n = 43 then Some 62
      else if n = 47 then Some 63
      else None)"

fun b64_quanta :: "string \<Rightarrow> string \<times> bool" where
  \<comment> \<open>Four characters give three bytes; four that end in one or two \<open>=\<close> give two bytes
      or one, and must be the last: when more follows, their bytes are still written and
      the error is that of the data after them. Any other error stops before the bytes of
      its four characters. The result is the bytes written, and whether there was no
      error.\<close>
  "b64_quanta [] = ([], True)"
| "b64_quanta (a # b # c # d # rest) =
     (case (b64_value a, b64_value b) of
        (Some x, Some y) \<Rightarrow>
          (if c = CHR ''='' then
             (if d = CHR ''='' then ([char_of (x * 4 + y div 16)], rest = [])
              else ([], False))
           else
             (case b64_value c of
                None \<Rightarrow> ([], False)
              | Some z \<Rightarrow>
                  (if d = CHR ''='' then
                     ([char_of (x * 4 + y div 16), char_of ((y mod 16) * 16 + z div 4)],
                      rest = [])
                   else
                     (case b64_value d of
                        None \<Rightarrow> ([], False)
                      | Some w \<Rightarrow>
                          (case b64_quanta rest of
                             (bs, ok) \<Rightarrow>
                               (char_of (x * 4 + y div 16) # char_of ((y mod 16) * 16 + z div 4)
                                  # char_of ((z mod 4) * 64 + w) # bs, ok))))))
      | _ \<Rightarrow> ([], False))"
| "b64_quanta _ = ([], False)"

definition DecodeString :: "string \<Rightarrow> string \<times> bool" where
  \<comment> \<open>\<open>base64.StdEncoding.DecodeString\<close>: carriage returns and line feeds are skipped. The
      second component is \<open>err == nil\<close>.\<close>
  "DecodeString s = b64_quanta (filter (\<lambda>ch. ch \<noteq> CHR 0x0D \<and> ch \<noteq> CHR 0x0A) s)"

datatype go_panic = IndexOutOfRange

datatype auth_error = HeaderNotSet | MalformedHeader | MalformedEncoding | CorruptInputError

definition index :: "'a list \<Rightarrow> nat \<Rightarrow> go_panic + 'a" where
  \<comment> \<open>\<open>xs[i]\<close> on a slice\<close>
  "index xs i = (if i < length xs then Inr (xs ! i) else Inl IndexOutOfRange)"

definition ParseAuth ::
  "(string \<Rightarrow> string option) \<Rightarrow> string list option
     \<Rightarrow> go_panic + (string \<times> string \<times> auth_error option)"
where
  \<comment> \<open>The second argument is \<open>r.Header["Authorization"]\<close>, \<open>None\<close> when the key is not in the
      map. The first is \<open>fernet.VerifyAndDecrypt\<close> with the lifetime and the keys of the
      process: the message of a token that verifies. The result is the three values
      returned, \<open>user\<close>, \<open>pass\<close> and \<open>err\<close>, or the panic of an index out of range.\<close>
  "ParseAuth verify hdr =
     (case hdr of
        None \<Rightarrow> Inr ([], [], Some HeaderNotSet)
      | Some header \<Rightarrow>
     (case index header 0 of
        Inl p \<Rightarrow> Inl p
      | Inr h \<Rightarrow>
     (let auth = SplitN2 CHR '' '' h in
      if length auth \<noteq> 2 then Inr ([], [], Some MalformedHeader)
      else
     (case DecodeString (auth ! 1) of
        (_, False) \<Rightarrow> Inr ([], [], Some MalformedEncoding)
      | (userPass, True) \<Rightarrow>
     (let parts = Split CHR '':'' userPass;
          later =
            (case verify userPass of
               Some s \<Rightarrow>
                 (let parts = Split CHR '':'' s in
                  case index parts 1 of
                    Inl p \<Rightarrow> Inl p
                  | Inr pass \<Rightarrow> Inr (parts ! 0, pass, None))
             | None \<Rightarrow>
                 if length (parts ! 0) > 0 then
                   (case DecodeString (parts ! 0) of
                      (decodedPart, ok) \<Rightarrow>
                        (let outletCreds = Split CHR '':'' decodedPart;
                             err = (if ok then None else Some CorruptInputError)
                         in if length outletCreds > 1
                            then Inr (outletCreds ! 0, outletCreds ! 1, err)
                            else Inr (outletCreds ! 0, [], err)))
                 else Inr ([], [], None))
      in if parts ! 0 = ''l2met'' then
           (case index parts 1 of
              Inl p \<Rightarrow> Inl p
            | Inr p1 \<Rightarrow> if length p1 > 0 then Inr (parts ! 0, p1, None) else later)
         else later)))))"

section \<open>The outlet (lib/l2met/outlet.rb)\<close>

text \<open>
  A record of the store is a Ruby hash from strings to strings; a key that is absent reads
  as \<open>nil\<close>, here \<open>None\<close>. A Ruby Float is a \<open>real\<close>. What the outlet calls outside this
  file is gathered in one record: the conversions \<open>Integer()\<close> and \<open>Float()\<close> of the Ruby
  kernel on a string (\<open>None\<close> where they raise ArgumentError), the index that
  \<open>Array#sample\<close> draws, \<open>Stats.aggregate\<close>, the two calls to redis, the attributes of a
  consumer in the database, and the submission of a queue to Librato. \<open>Utils.measure\<close>
  returns the value of its block, as the chain of calls in \<open>snapshot\<close> needs; its timings
  and the lines of \<open>log\<close> in \<open>aggregate\<close> are left out.
\<close>

type_synonym rb_hash = "string \<rightharpoonup> string"

datatype rb_error = ArgumentError | TypeError | ZeroDivisionError | NoMethodError
  | ServiceError string

record measurement =
  m_name :: string
  m_source :: "string option"
  m_type :: string
  m_display_units_long :: "string option"
  m_measure_time :: int
  m_value :: "real option"

record client =
  email :: "string option"
  token :: "string option"

record world =
  Integer_parse :: "string \<Rightarrow> int option"
  Float_parse :: "string \<Rightarrow> real option"
  sample_index :: "rb_hash list \<Rightarrow> nat"
  Stats_aggregate :: "rb_hash list \<Rightarrow> rb_error + (string \<times> real) list"
  redis_keys :: "int \<Rightarrow> string list"
  redis_hgetall :: "string \<Rightarrow> rb_hash"
  consumer_attributes :: "string option \<Rightarrow> rb_error + rb_hash"
  queue_submit :: "client \<Rightarrow> measurement list \<Rightarrow> rb_error option"

datatype event =
  Counted nat string
  | Submitted client "measurement list"
  | Logged "string option" rb_error

definition Integer_rb :: "world \<Rightarrow> string option \<Rightarrow> rb_error + int" where
  \<comment> \<open>\<open>Integer(x)\<close>: TypeError on \<open>nil\<close>\<close>
  "Integer_rb w x =
     (case x of
        None \<Rightarrow> Inl TypeError
      | Some s \<Rightarrow> (case Integer_parse w s of None \<Rightarrow> Inl ArgumentError | Some n \<Rightarrow> Inr n))"

definition Float_rb :: "world \<Rightarrow> string option \<Rightarrow> rb_error + real" where
  "Float_rb w x =
     (case x of
        None \<Rightarrow> Inl TypeError
      | Some s \<Rightarrow> (case Float_parse w s of None \<Rightarrow> Inl ArgumentError | Some v \<Rightarrow> Inr v))"

definition key_prefix :: "string \<Rightarrow> string option" where
  \<comment> \<open>\<open>key.split(':')[0]\<close>: \<open>split\<close> drops the empty strings at the end, so a key of
      colons only, or an empty key, splits into no piece at all\<close>
  "key_prefix key =
     (if filter (\<lambda>ch. ch \<noteq> CHR '':'') key = [] then None
      else Some (takeWhile (\<lambda>ch. ch \<noteq> CHR '':'') key))"

definition in_partition :: "world \<Rightarrow> int \<Rightarrow> int \<Rightarrow> string \<Rightarrow> rb_error + bool" where
  \<comment> \<open>the block of \<open>select\<close>: \<open>Integer(key.split(':')[0]) % max == partition\<close>\<close>
  "in_partition w part mx key =
     (case Integer_rb w (key_prefix key) of
        Inl e \<Rightarrow> Inl e
      | Inr n \<Rightarrow> if mx = 0 then Inl ZeroDivisionError else Inr (n mod mx = part))"

fun select_rb :: "('a \<Rightarrow> rb_error + bool) \<Rightarrow> 'a list \<Rightarrow> rb_error + 'a list" where
  \<comment> \<open>\<open>select\<close> with a block that may raise: the first raise leaves the loop\<close>
  "select_rb blk [] = Inr []"
| "select_rb blk (x # xs) =
     (case blk x of
        Inl e \<Rightarrow> Inl e
      | Inr keep \<Rightarrow>
          (case select_rb blk xs of
             Inl e \<Rightarrow> Inl e
           | Inr ys \<Rightarrow> Inr (if keep then x # ys else ys)))"

fun map_rb :: "('a \<Rightarrow> rb_error + 'b) \<Rightarrow> 'a list \<Rightarrow> rb_error + 'b list" where
  \<comment> \<open>\<open>map\<close> with a block that may raise\<close>
  "map_rb blk [] = Inr []"
| "map_rb blk (x # xs) =
     (case blk x of
        Inl e \<Rightarrow> Inl e
      | Inr y \<Rightarrow> (case map_rb blk xs of Inl e \<Rightarrow> Inl e | Inr ys \<Rightarrow> Inr (y # ys)))"

fun group_insert :: "'k \<Rightarrow> 'a \<Rightarrow> ('k \<times> 'a list) list \<Rightarrow> ('k \<times> 'a list) list" where
  "group_insert k x [] = [(k, [x])]"
| "group_insert k x ((k', xs) # gs) =
     (if k = k' then (k', xs @ [x]) # gs else (k', xs) # group_insert k x gs)"

definition group_by :: "('a \<Rightarrow> 'k) \<Rightarrow> 'a list \<Rightarrow> ('k \<times> 'a list) list" where
  \<comment> \<open>\<open>group_by\<close>: a hash in the order in which its keys first occur, each group in the
      order of the list\<close>
  "group_by f xs = foldl (\<lambda>gs x. group_insert (f x) x gs) [] xs"

definition fetch :: "world \<Rightarrow> string \<Rightarrow> rb_hash" where
  \<comment> \<open>the block of \<open>map\<close> in \<open>snapshot\<close>: \<open>redis.hgetall(key).merge('mkey' => mkey)\<close>\<close>
  "fetch w key = (redis_hgetall w key)(''mkey'' := key_prefix key)"

definition join_dot :: "string option \<Rightarrow> string \<Rightarrow> string" where
  \<comment> \<open>\<open>[a, b].join(".")\<close>: \<open>nil\<close> joins as the empty string\<close>
  "join_dot a b = (case a of None \<Rightarrow> [] | Some n \<Rightarrow> n) @ ''.'' @ b"

definition reduce_plus :: "real list \<Rightarrow> real option" where
  \<comment> \<open>\<open>reduce(:+)\<close>: from the left, \<open>nil\<close> on the empty array\<close>
  "reduce_plus vs = (case vs of [] \<Rightarrow> None | v # vs' \<Rightarrow> Some (foldl (+) v vs'))"

definition opts_merge :: "rb_hash \<Rightarrow> int \<Rightarrow> string \<Rightarrow> real option \<Rightarrow> measurement" where
  \<comment> \<open>\<open>{name => opts.merge(value: val)}\<close>, with \<open>opts\<close> made from the sample \<open>s\<close>\<close>
  "opts_merge s bucket name val =
     \<lparr>m_name = name, m_source = s ''source'', m_type = ''gauge'',
      m_display_units_long = s ''label'', m_measure_time = bucket, m_value = val\<rparr>"

definition aggregate_group ::
  "world \<Rightarrow> int \<Rightarrow> string option \<times> rb_hash list \<Rightarrow> rb_error + measurement list"
where
  \<comment> \<open>The block of \<open>map\<close> in \<open>aggregate\<close>, followed by what \<open>flatten.compact\<close> makes of its
      value: the hash alone, the hashes of the array, or nothing for \<open>nil\<close>. \<open>sample\<close> of
      an empty array is \<open>nil\<close>, and \<open>nil["source"]\<close> raises NoMethodError.\<close>
  "aggregate_group w bucket g =
     (case g of (mkey, metrics) \<Rightarrow>
      if length metrics = 0 then Inl NoMethodError
      else
       (let s = metrics ! (sample_index w metrics mod length metrics) in
        if s ''type'' = Some ''counter'' then
          (case map_rb (\<lambda>m. Float_rb w (m ''value'')) metrics of
             Inl e \<Rightarrow> Inl e
           | Inr vals \<Rightarrow>
               Inr [opts_merge s bucket (join_dot (s ''name'') ''count'') (reduce_plus vals)])
        else if s ''type'' = Some ''last'' then
          (case Float_rb w ((last metrics) ''value'') of
             Inl e \<Rightarrow> Inl e
           | Inr val \<Rightarrow> Inr [opts_merge s bucket (join_dot (s ''name'') ''last'') (Some val)])
        else if s ''type'' = Some ''list'' then
          (case Stats_aggregate w metrics of
             Inl e \<Rightarrow> Inl e
           | Inr stats \<Rightarrow>
               Inr (map (\<lambda>(stat, val). opts_merge s bucket (join_dot (s ''name'') stat) (Some val))
                      stats))
        else Inr []))"

definition aggregate :: "world \<Rightarrow> int \<Rightarrow> rb_hash list \<Rightarrow> rb_error + measurement list" where
  "aggregate w bucket metrics =
     (case map_rb (aggregate_group w bucket) (group_by (\<lambda>metric. metric ''mkey'') metrics) of
        Inl e \<Rightarrow> Inl e
      | Inr outs \<Rightarrow> Inr (concat outs))"

definition librato_client :: "world \<Rightarrow> string option \<Rightarrow> rb_error + client" where
  "librato_client w consumer_id =
     (case consumer_attributes w consumer_id of
        Inl e \<Rightarrow> Inl e
      | Inr consumer \<Rightarrow> Inr \<lparr>email = consumer ''email'', token = consumer ''token''\<rparr>)"

definition rescue :: "string option \<Rightarrow> rb_error \<Rightarrow> event list" where
  \<comment> \<open>the \<open>rescue => e\<close> clause: the count, then the line of the log\<close>
  "rescue consumer_id e = [Counted 1 ''outlet.metric-post-error'', Logged consumer_id e]"

definition tenant :: "world \<Rightarrow> int \<Rightarrow> string option \<times> rb_hash list \<Rightarrow> event list" where
  \<comment> \<open>the block of \<open>each\<close> in \<open>snapshot\<close>, from \<open>begin\<close> to \<open>end\<close>\<close>
  "tenant w bucket g =
     (case g of (consumer_id, metrics) \<Rightarrow>
      (case librato_client w consumer_id of
         Inl e \<Rightarrow> rescue consumer_id e
       | Inr cl \<Rightarrow>
           (case aggregate w bucket metrics of
              Inl e \<Rightarrow> rescue consumer_id e
            | Inr q \<Rightarrow>
                if length q > 0 then
                  Counted (length q) ''outlet.librato.metrics''
                    # (case queue_submit w cl q of
                         Some e \<Rightarrow> rescue consumer_id e
                       | None \<Rightarrow> [Submitted cl q])
                else [])))"

fun each_tenant :: "world \<Rightarrow> int \<Rightarrow> (string option \<times> rb_hash list) list \<Rightarrow> event list" where
  "each_tenant w bucket [] = []"
| "each_tenant w bucket (g # gs) = tenant w bucket g @ each_tenant w bucket gs"

definition retained :: "world \<Rightarrow> int \<Rightarrow> int \<Rightarrow> int \<Rightarrow> rb_error + string list" where
  \<comment> \<open>the keys of \<open>snapshot\<close> after \<open>select\<close>\<close>
  "retained w part mx bucket = select_rb (in_partition w part mx) (redis_keys w bucket)"

definition snapshot :: "world \<Rightarrow> int \<Rightarrow> int \<Rightarrow> int \<Rightarrow> rb_error + event list" where
  \<comment> \<open>a raise in \<open>select\<close> is outside \<open>begin\<close> and leaves \<open>snapshot\<close>\<close>
  "snapshot w part mx bucket =
     (case retained w part mx bucket of
        Inl e \<Rightarrow> Inl e
      | Inr keys \<Rightarrow>
          Inr (each_tenant w bucket
                 (group_by (\<lambda>metric. metric ''consumer'') (map (fetch w) keys))))"

definition is_retained :: "world \<Rightarrow> int \<Rightarrow> int \<Rightarrow> int \<Rightarrow> string \<Rightarrow> bool" where
  \<comment> \<open>\<open>snapshot\<close> for a partition keeps the key\<close>
  "is_retained w part mx bucket key =
     (case retained w part mx bucket of Inl e \<Rightarrow> False | Inr keys \<Rightarrow> key \<in> set keys)"

definition tenant_groups :: "world \<Rightarrow> string list \<Rightarrow> (string option \<times> rb_hash list) list" where
  \<comment> \<open>the tenant groups of \<open>snapshot\<close> for the keys it keeps\<close>
  "tenant_groups w keys = group_by (\<lambda>metric. metric ''consumer'') (map (fetch w) keys)"

definition submissions :: "event list \<Rightarrow> nat" where
  "submissions evs = length (filter (\<lambda>ev. case ev of Submitted cl q \<Rightarrow> True | _ \<Rightarrow> False) evs)"

definition error_counts :: "event list \<Rightarrow> nat" where
  "error_counts evs = length (filter (\<lambda>ev. ev = Counted 1 ''outlet.metric-post-error'') evs)"

definition tenant_fails :: "world \<Rightarrow> int \<Rightarrow> string option \<times> rb_hash list \<Rightarrow> rb_error option" where
  \<comment> \<open>the error, if any, that the block of a tenant group rescues\<close>
  "tenant_fails w bucket g =
     (case g of (consumer_id, metrics) \<Rightarrow>
      (case librato_client w consumer_id of
         Inl e \<Rightarrow> Some e
       | Inr cl \<Rightarrow>
           (case aggregate w bucket metrics of
              Inl e \<Rightarrow> Some e
            | Inr q \<Rightarrow> if length q > 0 then queue_submit w cl q else None)))"

definition tenant_batch :: "world \<Rightarrow> int \<Rightarrow> string option \<times> rb_hash list \<Rightarrow> measurement list" where
  \<comment> \<open>what \<open>aggregate\<close> puts on the queue of a tenant group, nothing when it raises\<close>
  "tenant_batch w bucket g =
     (case aggregate w bucket (snd g) of Inl e \<Rightarrow> [] | Inr q \<Rightarrow> q)"

section \<open>Concrete inputs\<close>

text \<open>The inputs at which the theorems below are evaluated.\<close>

definition example_channel :: Channel where
  "example_channel =
     \<lparr>FlushInterval = 60000000000, username = ''user'', password = ''secret'', verbose = False,
      Enabled = True, Buffer = Map.empty, url = ''https://metrics.example/v1/metrics'',
      source = ''host1'', appName = ''l2met''\<rparr>"

definition example_id :: bucket_Id where
  "example_id = new_Id 60000000000 ''l2met.receiver.handle'' ''ms'' ''host1''"

definition other_id :: bucket_Id where
  "other_id = new_Id 60000000000 ''l2met.receiver.requests'' ''requests'' ''bob_at_example.com''"


definition example_filled :: Channel where
  "example_filled =
     adds example_channel
       [(example_id, 5, 63500000047000000000), (other_id, 1, 63500000048000000000)]"

definition example_metric :: libratoMetric where
  "example_metric =
     \<lparr>lm_Name = ''l2met.receiver.handle'', lm_Time = 1364403240, lm_Source = ''host1'',
      lm_Count = 3, lm_Sum = 6, lm_Max = 3, lm_Min = 1\<rparr>"

definition example_marshal :: "libratoGauge \<Rightarrow> string + string" where
  \<comment> \<open>a stand-in for the JSON text: the names of the metrics of the batch\<close>
  "example_marshal g = Inr (''gauges:'' @ concat (map lm_Name (Gauges g)))"

definition refusing_lib :: libraries where
  \<comment> \<open>every exchange fails before a response arrives\<close>
  "refusing_lib =
     \<lparr>json_Marshal = example_marshal, url_error = (\<lambda>u. None),
      client_Do = (\<lambda>sent req. Inl ''dial tcp: connection refused'')\<rparr>"

definition failing_once_lib :: libraries where
  \<comment> \<open>the server answers 500 to the first request and 200 to the later ones\<close>
  "failing_once_lib =
     \<lparr>json_Marshal = example_marshal, url_error = (\<lambda>u. None),
      client_Do = (\<lambda>sent req.
        if sent = [] then Inr \<lparr>StatusCode = 500, RespBody = Inr ''try later''\<rparr>
        else Inr \<lparr>StatusCode = 200, RespBody = Inr []\<rparr>)\<rparr>"

fun digits :: "nat \<Rightarrow> string \<Rightarrow> nat option" where
  "digits acc [] = Some acc"
| "digits acc (ch # s) =
     (let n = (of_char ch :: nat) in
      if 48 \<le> n \<and> n \<le> 57 then digits (10 * acc + (n - 48)) s else None)"

definition decimal :: "string \<Rightarrow> nat option" where
  \<comment> \<open>the number written by a non-empty string of decimal digits\<close>
  "decimal s = (case s of [] \<Rightarrow> None | _ # _ \<Rightarrow> digits 0 s)"

definition record_of :: "string \<Rightarrow> string \<Rightarrow> string \<Rightarrow> string \<Rightarrow> rb_hash" where
  "record_of consumer name kind val =
     [''consumer'' \<mapsto> consumer, ''name'' \<mapsto> name, ''type'' \<mapsto> kind, ''value'' \<mapsto> val,
      ''source'' \<mapsto> ''web.1'', ''label'' \<mapsto> ''requests'']"

definition example_hgetall :: "string \<Rightarrow> rb_hash" where
  "example_hgetall key =
     (if key = ''7:1364403240:a1'' then record_of ''acme'' ''hits'' ''counter'' ''1''
      else if key = ''7:1364403240:a2'' then record_of ''acme'' ''hits'' ''counter'' ''2''
      else if key = ''7:1364403240:a3'' then record_of ''acme'' ''hits'' ''counter'' ''3''
      else if key = ''10:1364403240:b1'' then record_of ''ghost'' ''jobs'' ''counter'' ''5''
      else if key = ''13:1364403240:c1'' then record_of ''zed'' ''latency'' ''distribution'' ''4''
      else if key = ''12:1364403240:d1'' then record_of ''acme'' ''queue'' ''last'' ''9''
      else if key = ''7:1364403300:a4'' then record_of ''acme'' ''hits'' ''counter'' ''8''
      else if key = ''10:1364403300:b2'' then record_of ''ghost'' ''jobs'' ''counter'' ''2''
      else Map.empty)"

definition example_world :: world where
  \<comment> \<open>Two buckets in the store; the consumer \<open>ghost\<close> is not in the database; the other
      consumers share one account; every submission succeeds. The statistics are a
      stand-in for \<open>Stats.aggregate\<close>: a fixed mean and the number of samples.\<close>
  "example_world =
     \<lparr>Integer_parse = (\<lambda>s. map_option int (decimal s)),
      Float_parse = (\<lambda>s. map_option real (decimal s)),
      sample_index = (\<lambda>ms. 0),
      Stats_aggregate = (\<lambda>ms. Inr [(''mean'', 5 / 2), (''count'', real (length ms))]),
      redis_keys = (\<lambda>b.
        if b = 1364403240
        then [''7:1364403240:a1'', ''7:1364403240:a2'', ''10:1364403240:b1'',
              ''12:1364403240:d1'', ''7:1364403240:a3'', ''13:1364403240:c1'']
        else if b = 1364403300 then [''7:1364403300:a4'', ''10:1364403300:b2'']
        else []),
      redis_hgetall = example_hgetall,
      consumer_attributes = (\<lambda>c.
        if c = Some ''ghost'' then Inl (ServiceError ''no such consumer'')
        else Inr [''email'' \<mapsto> ''ops@example.com'', ''token'' \<mapsto> ''t0k3n'']),
      queue_submit = (\<lambda>cl q. None)\<rparr>"

definition example_num :: "string \<Rightarrow> int" where
  \<comment> \<open>the number before the first colon of a key of the example store\<close>
  "example_num key =
     (case key_prefix key of
        None \<Rightarrow> 0
      | Some s \<Rightarrow> (case decimal s of None \<Rightarrow> 0 | Some n \<Rightarrow> int n))"



section \<open>The bucket of one key within a window\<close>

lemma add_FlushInterval: "FlushInterval (add c i v now) = FlushInterval c"
  by (simp add: add_def Let_def)

lemma add_other_key: "bucket_key i \<noteq> k \<Longrightarrow> Buffer (add c i v now) k = Buffer c k"
  by (simp add: add_def Let_def)

lemma add_in_window:
  "Buffer c (bucket_key i) = Some b \<Longrightarrow> Time (Id_of b) = Truncate now (FlushInterval c) \<Longrightarrow>
   Buffer (add c i v now) (bucket_key i) = Some (b\<lparr>Vals := Vals b @ [v]\<rparr>)"
  by (simp add: add_def Let_def)

lemma add_rollover:
  "stored_time c i \<noteq> Truncate now (FlushInterval c) \<Longrightarrow>
   Buffer (add c i v now) (bucket_key i) =
     Some \<lparr>Id_of = (case Buffer c (bucket_key i) of Some b \<Rightarrow> Id_of b | None \<Rightarrow> i)
                      \<lparr>Time := Truncate now (FlushInterval c)\<rparr>,
           Vals = [v]\<rparr>"
  by (auto simp add: add_def Let_def stored_time_def split: option.splits)

lemma adds_FlushInterval: "FlushInterval (adds c calls) = FlushInterval c"
  by (induction c calls rule: adds.induct) (simp_all add: add_FlushInterval)

lemma adds_in_window:
  "Buffer c k = Some b \<Longrightarrow> Time (Id_of b) = t \<Longrightarrow>
   \<forall>(i, v, now) \<in> set calls. Truncate now (FlushInterval c) = t \<Longrightarrow>
   Buffer (adds c calls) k = Some (b\<lparr>Vals := Vals b @ vals_for k calls\<rparr>)"
proof (induction c calls arbitrary: b rule: adds.induct)
  case (1 c)
  then show ?case by (simp add: vals_for_def)
next
  case (2 c i v now calls)
  have t: "Truncate now (FlushInterval c) = t" using "2.prems"(3) by simp
  have rest: "\<forall>(j, w, now') \<in> set calls. Truncate now' (FlushInterval (add c i v now)) = t"
    using "2.prems"(3) by (simp add: add_FlushInterval)
  show ?case
  proof (cases "bucket_key i = k")
    case True
    have "Buffer (add c i v now) k = Some (b\<lparr>Vals := Vals b @ [v]\<rparr>)"
      using add_in_window [of c i b now v] "2.prems"(1,2) t True by simp
    from "2.IH" [OF this _ rest] "2.prems"(2) True show ?thesis
      by (simp add: vals_for_def)
  next
    case False
    have "Buffer (add c i v now) k = Some b"
      using add_other_key [OF False] "2.prems"(1) by simp
    from "2.IH" [OF this "2.prems"(2) rest] False show ?thesis
      by (simp add: vals_for_def)
  qed
qed

lemma Bucket_Max_eq: "Vals b \<noteq> [] \<Longrightarrow> Bucket_Max b = Max (set (Vals b))"
  by (cases "Vals b") (simp_all add: Bucket_Max_def Max.set_eq_fold [symmetric])

lemma Bucket_Min_eq: "Vals b \<noteq> [] \<Longrightarrow> Bucket_Min b = Min (set (Vals b))"
  by (cases "Vals b") (simp_all add: Bucket_Min_def Min.set_eq_fold [symmetric])


text \<open>
  The two callers of \<open>add\<close> make the identity without a time; a bucket made for such an
  identity is reset by the first \<open>add\<close> unless the clock, truncated, is the zero Time.
\<close>

lemma Measure_stored_time:
  "Enabled c \<Longrightarrow> Buffer c (bucket_key (new_Id (FlushInterval c) (appName c @ ''.'' @ name) ''ms'' (source c))) = None \<Longrightarrow>
   stored_time c (new_Id (FlushInterval c) (appName c @ ''.'' @ name) ''ms'' (source c)) = 0"
  by (simp add: stored_time_def new_Id_def)

lemma Measure_is_add:
  "Enabled c \<Longrightarrow>
   Measure c name v now = add c (new_Id (FlushInterval c) (appName c @ ''.'' @ name) ''ms'' (source c)) v now"
  by (simp add: Measure_def)

text \<open>
  A bucket that \<open>add\<close> makes for an identity whose time already is the truncated clock
  keeps the element it was made with, in front of the value added.
\<close>

lemma add_new_bucket_same_time:
  "Buffer c (bucket_key i) = None \<Longrightarrow> Time i = Truncate now (FlushInterval c) \<Longrightarrow>
   Buffer (add c i v now) (bucket_key i) = Some \<lparr>Id_of = i, Vals = [0, v]\<rparr>"
  by (simp add: add_def Let_def)

text \<open>
  C1. A window of a key opens with the first \<open>add\<close> for which the truncated clock \<open>t\<close>
  differs from the stored time: that call empties the value sequence and appends its
  value. While the truncated clock of the calls that follow stays \<open>t\<close>, whatever their
  keys, the bucket of the key holds \<open>t\<close> and exactly the values added under the key since
  the window opened, in the order of the calls: \<open>Count\<close> is the number of these calls,
  \<open>Sum\<close> their total, \<open>Max\<close> and \<open>Min\<close> their greatest and least value.
\<close>

theorem add_window_values:
  assumes roll: "stored_time c i \<noteq> t"
    and first: "Truncate now (FlushInterval c) = t"
    and rest: "\<forall>(j, w, now') \<in> set calls. Truncate now' (FlushInterval c) = t"
  shows "\<exists>b. Buffer (adds c ((i, v, now) # calls)) (bucket_key i) = Some b
           \<and> Time (Id_of b) = t
           \<and> Vals b = v # vals_for (bucket_key i) calls
           \<and> Bucket_Count b = 1 + int (length (filter (\<lambda>(j, w, now'). bucket_key j = bucket_key i) calls))
           \<and> Bucket_Sum b = v + sum_list (vals_for (bucket_key i) calls)
           \<and> Bucket_Max b = Max (insert v (set (vals_for (bucket_key i) calls)))
           \<and> Bucket_Min b = Min (insert v (set (vals_for (bucket_key i) calls)))"
proof -
  define b0 where "b0 = \<lparr>Id_of = (case Buffer c (bucket_key i) of Some b \<Rightarrow> Id_of b | None \<Rightarrow> i)
                      \<lparr>Time := t\<rparr>, Vals = [v]\<rparr>"
  have 1: "Buffer (add c i v now) (bucket_key i) = Some b0"
    using add_rollover [of c i now v] roll first by (simp add: b0_def)
  have 2: "Time (Id_of b0) = t" by (simp add: b0_def)
  have 3: "\<forall>(j, w, now') \<in> set calls. Truncate now' (FlushInterval (add c i v now)) = t"
    using rest by (simp add: add_FlushInterval)
  define b where "b = b0\<lparr>Vals := Vals b0 @ vals_for (bucket_key i) calls\<rparr>"
  have 4: "Buffer (adds c ((i, v, now) # calls)) (bucket_key i) = Some b"
    using adds_in_window [OF 1 2 3] by (simp add: b_def)
  have 5: "Vals b = v # vals_for (bucket_key i) calls" by (simp add: b_def b0_def)
  have 6: "Time (Id_of b) = t" by (simp add: b_def b0_def)
  have 7: "Bucket_Count b = 1 + int (length (filter (\<lambda>(j, w, now'). bucket_key j = bucket_key i) calls))"
    by (simp add: Bucket_Count_def 5 vals_for_def)
  have 8: "Bucket_Sum b = v + sum_list (vals_for (bucket_key i) calls)"
    by (simp add: Bucket_Sum_def 5)
  have 9: "Bucket_Max b = Max (insert v (set (vals_for (bucket_key i) calls)))"
    using Bucket_Max_eq [of b] by (simp add: 5)
  have 10: "Bucket_Min b = Min (insert v (set (vals_for (bucket_key i) calls)))"
    using Bucket_Min_eq [of b] by (simp add: 5)
  from 4 5 6 7 8 9 10 show ?thesis by blast
qed


theorem add_window_values_witness:
  "stored_time example_channel example_id \<noteq> 63500000040000000000
   \<and> Truncate 63500000047000000000 (FlushInterval example_channel) = 63500000040000000000
   \<and> (\<exists>b. Buffer (adds example_channel
               [(example_id, 1, 63500000047000000000), (example_id, 2, 63500000051000000000),
                (other_id, 9, 63500000052000000000), (example_id, 3, 63500000099999999999)])
             (bucket_key example_id) = Some b
          \<and> Time (Id_of b) = 63500000040000000000
          \<and> Vals b = [1, 2, 3]
          \<and> Bucket_Count b = 3 \<and> Bucket_Sum b = 6 \<and> Bucket_Max b = 3 \<and> Bucket_Min b = 1)"
proof -
  have a: "stored_time example_channel example_id \<noteq> 63500000040000000000"
    by (simp add: stored_time_def example_channel_def example_id_def new_Id_def)
  have b: "Truncate 63500000047000000000 (FlushInterval example_channel) = 63500000040000000000"
    by (simp add: Truncate_def example_channel_def)
  have c: "\<forall>(j, w, now') \<in> set [(example_id, 2, 63500000051000000000), (other_id, 9, 63500000052000000000),
                               (example_id, 3, 63500000099999999999)].
          Truncate now' (FlushInterval example_channel) = 63500000040000000000"
    by (simp add: Truncate_def example_channel_def)
  have k: "bucket_key other_id \<noteq> bucket_key example_id"
    by (simp add: bucket_key_def other_id_def example_id_def new_Id_def)
  from add_window_values [OF a b c, of 1] a b c k show ?thesis
    by (simp add: vals_for_def)
qed


section \<open>Flushing\<close>

lemma adds_other_key:
  "\<forall>(i, v, now) \<in> set calls. bucket_key i \<noteq> k \<Longrightarrow> Buffer (adds c calls) k = Buffer c k"
  by (induction c calls rule: adds.induct) (simp_all add: add_other_key)

lemma flush_sends:
  "set ks \<subseteq> dom (Buffer c) \<Longrightarrow> snd (flush c ks) = map (\<lambda>k. toMetric (the (Buffer c k))) ks"
  by (induction ks) (auto simp add: flush_def List.map_filter_simps)

lemma enumerations_mset: "distinct ks1 \<Longrightarrow> distinct ks2 \<Longrightarrow> set ks1 = set ks2 \<Longrightarrow> mset ks1 = mset ks2"
  by (simp add: set_eq_iff_mset_eq_distinct)

text \<open>
  C10. \<open>flush\<close> returns the channel as it found it: no key leaves the buffer and no bucket
  changes its time or its values. A bucket that no \<open>add\<close> touches between two flushes,
  whatever is added under other keys and in whichever order the two loops visit the keys,
  is still in the buffer at the second flush and is sent again as the same metric. With no
  \<open>add\<close> at all between them, the two flushes send the same metrics.
\<close>

theorem flush_reexports:
  assumes ks1: "distinct ks1 \<and> set ks1 = dom (Buffer c)"
    and ks2: "distinct ks2 \<and> set ks2 = dom (Buffer (adds (fst (flush c ks1)) calls))"
    and k: "Buffer c k = Some b"
    and untouched: "\<forall>(i, v, now) \<in> set calls. bucket_key i \<noteq> k"
  shows "fst (flush c ks1) = c
       \<and> Buffer (adds (fst (flush c ks1)) calls) k = Some b
       \<and> toMetric b \<in> set (snd (flush c ks1))
       \<and> toMetric b \<in> set (snd (flush (adds (fst (flush c ks1)) calls) ks2))
       \<and> (calls = [] \<longrightarrow> mset (snd (flush (adds (fst (flush c ks1)) calls) ks2)) = mset (snd (flush c ks1)))"
proof -
  let ?c' = "adds (fst (flush c ks1)) calls"
  have 1: "fst (flush c ks1) = c" by (simp add: flush_def)
  have 2: "Buffer ?c' k = Some b"
    using adds_other_key [OF untouched, of c] k by (simp add: 1)
  have s1: "snd (flush c ks1) = map (\<lambda>k. toMetric (the (Buffer c k))) ks1"
    using ks1 by (simp add: flush_sends)
  have s2: "snd (flush ?c' ks2) = map (\<lambda>k. toMetric (the (Buffer ?c' k))) ks2"
    using ks2 by (simp add: flush_sends)
  have k1: "k \<in> set ks1" using ks1 k by auto
  have k2: "k \<in> set ks2" using ks2 2 by auto
  have 3: "toMetric b \<in> set (snd (flush c ks1))"
    unfolding s1 using k1 k by force
  have 4: "toMetric b \<in> set (snd (flush ?c' ks2))"
    unfolding s2 using k2 2 by force
  have 5: "calls = [] \<longrightarrow> mset (snd (flush ?c' ks2)) = mset (snd (flush c ks1))"
  proof
    assume e: "calls = []"
    then have c': "?c' = c" by (simp add: 1)
    have "mset ks2 = mset ks1"
      using ks1 ks2 by (intro enumerations_mset) (simp_all add: c')
    then have "mset (map (\<lambda>k. toMetric (the (Buffer c k))) ks2) = mset (map (\<lambda>k. toMetric (the (Buffer c k))) ks1)"
      by (metis mset_map)
    then show "mset (snd (flush ?c' ks2)) = mset (snd (flush c ks1))"
      using s1 s2 by (simp add: c')
  qed
  from 1 2 3 4 5 show ?thesis by blast
qed

theorem flush_reexports_witness:
  "(distinct [''l2met.receiver.handle:host1'', ''l2met.receiver.requests:bob_at_example.com'']
      \<and> set [''l2met.receiver.handle:host1'', ''l2met.receiver.requests:bob_at_example.com'']
          = dom (Buffer example_filled))
   \<and> (distinct [''l2met.receiver.requests:bob_at_example.com'', ''l2met.receiver.handle:host1'']
      \<and> set [''l2met.receiver.requests:bob_at_example.com'', ''l2met.receiver.handle:host1'']
          = dom (Buffer (adds (fst (flush example_filled
                [''l2met.receiver.handle:host1'', ''l2met.receiver.requests:bob_at_example.com'']))
                [(other_id, 1, 63500000107000000000)])))
   \<and> Buffer example_filled ''l2met.receiver.handle:host1''
        = Some \<lparr>Id_of = example_id\<lparr>Time := 63500000040000000000\<rparr>, Vals = [5]\<rparr>
   \<and> toMetric \<lparr>Id_of = example_id\<lparr>Time := 63500000040000000000\<rparr>, Vals = [5]\<rparr>
        \<in> set (snd (flush example_filled
                [''l2met.receiver.handle:host1'', ''l2met.receiver.requests:bob_at_example.com'']))
   \<and> toMetric \<lparr>Id_of = example_id\<lparr>Time := 63500000040000000000\<rparr>, Vals = [5]\<rparr>
        \<in> set (snd (flush (adds (fst (flush example_filled
                [''l2met.receiver.handle:host1'', ''l2met.receiver.requests:bob_at_example.com'']))
                [(other_id, 1, 63500000107000000000)])
              [''l2met.receiver.requests:bob_at_example.com'', ''l2met.receiver.handle:host1'']))
   \<and> lm_Count (toMetric \<lparr>Id_of = example_id\<lparr>Time := 63500000040000000000\<rparr>, Vals = [5]\<rparr>) = 1"
proof -
  let ?k1 = "''l2met.receiver.handle:host1''"
  let ?k2 = "''l2met.receiver.requests:bob_at_example.com''"
  let ?b = "\<lparr>Id_of = example_id\<lparr>Time := 63500000040000000000\<rparr>, Vals = [5]\<rparr>"
  have filled: "Buffer example_filled =
     [?k1 \<mapsto> ?b, ?k2 \<mapsto> \<lparr>Id_of = other_id\<lparr>Time := 63500000040000000000\<rparr>, Vals = [1]\<rparr>]"
    by (simp add: example_filled_def example_channel_def add_def Let_def bucket_key_def
        example_id_def other_id_def new_Id_def Truncate_def)
  have h1: "distinct [?k1, ?k2] \<and> set [?k1, ?k2] = dom (Buffer example_filled)"
    by (auto simp add: filled)
  have h2: "distinct [?k2, ?k1] \<and> set [?k2, ?k1]
      = dom (Buffer (adds (fst (flush example_filled [?k1, ?k2])) [(other_id, 1, 63500000107000000000)]))"
    by (auto simp add: flush_def add_def Let_def filled bucket_key_def other_id_def new_Id_def)
  have h3: "Buffer example_filled ?k1 = Some ?b"
    by (simp add: filled)
  have h4: "\<forall>(i, v, now) \<in> set [(other_id, 1 :: real, 63500000107000000000 :: int)]. bucket_key i \<noteq> ?k1"
    by (simp add: bucket_key_def other_id_def new_Id_def)
  have c: "lm_Count (toMetric ?b) = 1"
    by (simp add: toMetric_def Bucket_Count_def)
  from flush_reexports [OF h1 h2 h3 h4] h1 h2 h3 c show ?thesis
    by blast
qed

section \<open>Posting and the poster loop\<close>

lemma status_2xx: "(n sdiv 100 = 2) = (200 \<le> n \<and> n \<le> (299::int))"
proof (cases "0 < n")
  case True
  have "n sdiv 100 = sgn n * sgn (100::int) * (\<bar>n\<bar> div \<bar>100\<bar>)"
    by (rule signed_divide_int_def)
  also have "\<dots> = n div 100" using True by simp
  finally have e: "n sdiv 100 = n div 100" .
  show ?thesis unfolding e using True by linarith
next
  case False
  have "n sdiv 100 = sgn n * sgn (100::int) * (\<bar>n\<bar> div \<bar>100\<bar>)"
    by (rule signed_divide_int_def)
  also have "\<dots> \<le> 0" using False
    by (cases "n = 0") (simp_all add: sgn_if pos_imp_zdiv_nonneg_iff)
  finally have "n sdiv 100 \<le> 0" .
  with False show ?thesis by linarith
qed

lemma post_marshal_error:
  "json_Marshal lib \<lparr>Gauges = [m]\<rparr> = Inl err \<Longrightarrow> post lib c sent m = (sent, Some (LibError err))"
  by (simp add: post_def)

lemma post_url_error:
  "json_Marshal lib \<lparr>Gauges = [m]\<rparr> = Inr j \<Longrightarrow> url_error lib (url c) = Some err \<Longrightarrow>
   post lib c sent m = (sent, Some (LibError err))"
  by (simp add: post_def NewRequest_def)

lemma post_transport_error:
  "json_Marshal lib \<lparr>Gauges = [m]\<rparr> = Inr j \<Longrightarrow> url_error lib (url c) = None \<Longrightarrow>
   client_Do lib sent (request_for c j) = Inl err \<Longrightarrow>
   post lib c sent m = (sent @ [request_for c j], Some (LibError err))"
  by (simp add: post_def NewRequest_def request_for_def)

lemma post_response:
  "json_Marshal lib \<lparr>Gauges = [m]\<rparr> = Inr j \<Longrightarrow> url_error lib (url c) = None \<Longrightarrow>
   client_Do lib sent (request_for c j) = Inr resp \<Longrightarrow>
   post lib c sent m =
     (sent @ [request_for c j],
      if 200 \<le> StatusCode resp \<and> StatusCode resp \<le> 299 then None
      else Some (StatusError (StatusCode resp) (case RespBody resp of Inl e \<Rightarrow> None | Inr s \<Rightarrow> Some s)))"
  by (simp add: post_def NewRequest_def request_for_def status_2xx split: sum.splits)

lemma post_nil_iff:
  "snd (post lib c sent m) = None \<longleftrightarrow>
     (\<exists>j resp. json_Marshal lib \<lparr>Gauges = [m]\<rparr> = Inr j \<and> url_error lib (url c) = None
        \<and> client_Do lib sent (request_for c j) = Inr resp
        \<and> 200 \<le> StatusCode resp \<and> StatusCode resp \<le> 299)"
proof (cases "json_Marshal lib \<lparr>Gauges = [m]\<rparr>")
  case (Inl err)
  then show ?thesis by (simp add: post_marshal_error)
next
  case (Inr j)
  note j = this
  show ?thesis
  proof (cases "url_error lib (url c)")
    case (Some err)
    with j show ?thesis by (simp add: post_url_error)
  next
    case None
    note u = this
    show ?thesis
    proof (cases "client_Do lib sent (request_for c j)")
      case (Inl err)
      with j u show ?thesis by (simp add: post_transport_error)
    next
      case (Inr resp)
      with j u show ?thesis by (simp add: post_response)
    qed
  qed
qed

lemma post_sent:
  "length (fst (post lib c sent m)) \<le> length sent + 1"
proof (cases "json_Marshal lib \<lparr>Gauges = [m]\<rparr>")
  case (Inl err)
  then show ?thesis by (simp add: post_marshal_error)
next
  case (Inr j)
  note j = this
  show ?thesis
  proof (cases "url_error lib (url c)")
    case (Some err)
    with j show ?thesis by (simp add: post_url_error)
  next
    case None
    note u = this
    show ?thesis
    proof (cases "client_Do lib sent (request_for c j)")
      case (Inl err)
      with j u show ?thesis by (simp add: post_transport_error)
    next
      case (Inr resp)
      with j u show ?thesis by (simp add: post_response)
    qed
  qed
qed

lemma outlet_Cons:
  "outlet lib c sent (m # mets) =
     (fst (outlet lib c (fst (post lib c sent m)) mets),
      OutletMetric m # (case snd (post lib c sent m) of Some e \<Rightarrow> [PostError e] | None \<Rightarrow> [])
        @ snd (outlet lib c (fst (post lib c sent m)) mets))"
  by (simp split: prod.splits option.splits)

lemma outlet_all_items: "outlet_metrics (snd (outlet lib c sent mets)) = mets"
proof (induction mets arbitrary: sent)
  case Nil
  then show ?case by (simp add: outlet_metrics_def List.map_filter_simps)
next
  case (Cons m mets)
  have "outlet_metrics (snd (outlet lib c (fst (post lib c sent m)) mets)) = mets"
    by (rule Cons.IH)
  then show ?case
    unfolding outlet_Cons
    by (cases "snd (post lib c sent m)") (simp_all add: outlet_metrics_def List.map_filter_simps)
qed

lemma outlet_requests_le: "length (fst (outlet lib c sent mets)) \<le> length sent + length mets"
proof (induction mets arbitrary: sent)
  case Nil
  then show ?case by simp
next
  case (Cons m mets)
  have "length (fst (outlet lib c (fst (post lib c sent m)) mets)) \<le> length (fst (post lib c sent m)) + length mets"
    by (rule Cons.IH)
  with post_sent [of lib c sent m] show ?case
    unfolding outlet_Cons by simp
qed

text \<open>
  C9. \<open>post\<close> marshals the batch of exactly one metric, \<open>m\<close>. It returns no error exactly
  when the batch marshals, the request is made, the client returns a response and the
  status of the response is between 200 and 299. When there is a response, \<open>post\<close> hands
  one request to the client and its error is the status error for every other status, with
  the body of the response when it can be read; an error of marshalling, of the request or
  of the exchange is returned as it is. The loop of \<open>outlet\<close> takes every metric of the
  outbox once, in order, whatever \<open>post\<close> returns, and hands at most one request per
  metric to the client: a metric whose post fails is not posted again.
\<close>

theorem post_outcome:
  "(snd (post lib c sent m) = None \<longleftrightarrow>
      (\<exists>j resp. json_Marshal lib \<lparr>Gauges = [m]\<rparr> = Inr j \<and> url_error lib (url c) = None
         \<and> client_Do lib sent (request_for c j) = Inr resp
         \<and> 200 \<le> StatusCode resp \<and> StatusCode resp \<le> 299))
   \<and> (\<forall>j resp. json_Marshal lib \<lparr>Gauges = [m]\<rparr> = Inr j \<and> url_error lib (url c) = None
         \<and> client_Do lib sent (request_for c j) = Inr resp \<longrightarrow>
         post lib c sent m =
           (sent @ [request_for c j],
            if 200 \<le> StatusCode resp \<and> StatusCode resp \<le> 299 then None
            else Some (StatusError (StatusCode resp)
                         (case RespBody resp of Inl e \<Rightarrow> None | Inr s \<Rightarrow> Some s))))
   \<and> outlet_metrics (snd (outlet lib c sent mets)) = mets
   \<and> length (fst (outlet lib c sent mets)) \<le> length sent + length mets"
  using post_nil_iff [of lib c sent m] post_response [of lib m _ c sent]
    outlet_all_items [of lib c sent mets] outlet_requests_le [of lib c sent mets]
  by blast

theorem post_outcome_witness:
  "post failing_once_lib example_channel [] example_metric =
     ([request_for example_channel ''gauges:l2met.receiver.handle''],
      Some (StatusError 500 (Some ''try later'')))
   \<and> outlet_metrics (snd (outlet failing_once_lib example_channel [] [example_metric, example_metric]))
       = [example_metric, example_metric]"
proof -
  have j: "json_Marshal failing_once_lib \<lparr>Gauges = [example_metric]\<rparr> = Inr ''gauges:l2met.receiver.handle''"
    by (simp add: failing_once_lib_def example_marshal_def example_metric_def)
  have u: "url_error failing_once_lib (url example_channel) = None"
    by (simp add: failing_once_lib_def)
  have d: "client_Do failing_once_lib [] (request_for example_channel ''gauges:l2met.receiver.handle'')
             = Inr \<lparr>StatusCode = 500, RespBody = Inr ''try later''\<rparr>"
    by (simp add: failing_once_lib_def)
  note po = post_outcome [where lib = failing_once_lib and c = example_channel and sent = "[]"
      and m = example_metric and mets = "[example_metric, example_metric]"]
  have "post failing_once_lib example_channel [] example_metric =
     ([] @ [request_for example_channel ''gauges:l2met.receiver.handle''],
      if 200 \<le> StatusCode \<lparr>StatusCode = 500, RespBody = Inr ''try later''\<rparr>
           \<and> StatusCode \<lparr>StatusCode = 500, RespBody = Inr ''try later''\<rparr> \<le> 299 then None
      else Some (StatusError (StatusCode \<lparr>StatusCode = 500, RespBody = Inr ''try later''\<rparr>)
                   (case RespBody \<lparr>StatusCode = 500, RespBody = Inr ''try later''\<rparr> of
                      Inl e \<Rightarrow> None | Inr s \<Rightarrow> Some s)))"
    using po [THEN conjunct2, THEN conjunct1] j u d by blast
  then have a: "post failing_once_lib example_channel [] example_metric =
     ([request_for example_channel ''gauges:l2met.receiver.handle''],
      Some (StatusError 500 (Some ''try later'')))"
    by simp
  from a po [THEN conjunct2, THEN conjunct2, THEN conjunct1] show ?thesis
    by (rule conjI)
qed

text \<open>
  Without a response there is no status, and \<open>post\<close> returns an error all the same: here
  the error of the client.
\<close>

theorem post_without_response_counterexample:
  "client_Do refusing_lib [] (request_for example_channel ''gauges:l2met.receiver.handle'')
     = Inl ''dial tcp: connection refused''
   \<and> post refusing_lib example_channel [] example_metric =
       ([request_for example_channel ''gauges:l2met.receiver.handle''],
        Some (LibError ''dial tcp: connection refused''))"
  by (simp add: post_def NewRequest_def request_for_def refusing_lib_def example_marshal_def
      example_metric_def Let_def)

section \<open>The auth resolver\<close>

lemma Split_not_Nil: "Split sep s \<noteq> []"
  by (induction s) (auto split: list.splits)

lemma Split_hd: "Split sep s ! 0 = takeWhile (\<lambda>ch. ch \<noteq> sep) s"
  by (induction s) (auto split: list.splits simp: Split_not_Nil)

lemma Split_length: "length (Split sep s) = Suc (length (filter (\<lambda>ch. ch = sep) s))"
  by (induction s) (auto split: list.splits simp: Split_not_Nil)

lemma Split_second:
  assumes "Split sep s ! 0 = p" and "s \<noteq> p"
  shows "1 < length (Split sep s)"
proof -
  have "takeWhile (\<lambda>ch. ch \<noteq> sep) s \<noteq> s" using assms by (simp add: Split_hd)
  then obtain ch where "ch \<in> set s" "\<not> ch \<noteq> sep"
    by (meson takeWhile_eq_all_conv)
  then have "filter (\<lambda>ch. ch = sep) s \<noteq> []"
    by (auto simp add: filter_empty_conv)
  then show ?thesis by (simp add: Split_length)
qed

lemma Split_has_sep:
  assumes "sep \<in> set s"
  shows "1 < length (Split sep s)"
proof -
  have "filter (\<lambda>ch. ch = sep) s \<noteq> []"
    using assms by (auto simp add: filter_empty_conv)
  then show ?thesis by (simp add: Split_length)
qed

lemma index_in_range: "i < length xs \<Longrightarrow> index xs i = Inr (xs ! i)"
  by (simp add: index_def)

lemma index_out_of_range: "\<not> i < length xs \<Longrightarrow> index xs i = Inl IndexOutOfRange"
  by (simp add: index_def)

lemma ParseAuth_decoded:
  assumes "SplitN2 CHR '' '' h = [scheme, cred]" and "DecodeString cred = (payload, True)"
  shows "ParseAuth verify (Some (h # hs)) =
     (let parts = Split CHR '':'' payload;
          later =
            (case verify payload of
               Some s \<Rightarrow>
                 (let parts = Split CHR '':'' s in
                  case index parts 1 of
                    Inl p \<Rightarrow> Inl p
                  | Inr pass \<Rightarrow> Inr (parts ! 0, pass, None))
             | None \<Rightarrow>
                 if length (parts ! 0) > 0 then
                   (case DecodeString (parts ! 0) of
                      (decodedPart, ok) \<Rightarrow>
                        (let outletCreds = Split CHR '':'' decodedPart;
                             err = (if ok then None else Some CorruptInputError)
                         in if length outletCreds > 1
                            then Inr (outletCreds ! 0, outletCreds ! 1, err)
                            else Inr (outletCreds ! 0, [], err)))
                 else Inr ([], [], None))
      in if parts ! 0 = ''l2met'' then
           (case index parts 1 of
              Inl p \<Rightarrow> Inl p
            | Inr p1 \<Rightarrow> if length p1 > 0 then Inr (parts ! 0, p1, None) else later)
         else later)"
  using assms by (simp add: ParseAuth_def index_def)


text \<open>
  C4. Take a request whose header is present, splits at a space into a scheme and
  credentials, and whose credentials decode as base64 to a payload. Unless the payload is
  the bare sentinel \<open>l2met\<close>, or a token that verifies to a message without a colon,
  \<open>ParseAuth\<close> returns a pair of user and secret, and none of the errors of the first
  three steps. The error it returns with the pair is \<open>nil\<close> when the sentinel pair or the
  fields of a token are returned, and when the first field of the payload is empty or is
  itself valid base64; for any other first field it is the error of decoding that field,
  which the last step assigns to \<open>err\<close>.
\<close>

theorem ParseAuth_fallback_chain:
  assumes auth: "SplitN2 CHR '' '' h = [scheme, cred]"
    and enc: "DecodeString cred = (payload, True)"
    and bare: "payload \<noteq> ''l2met''"
    and tok: "\<forall>s. verify payload = Some s \<longrightarrow> CHR '':'' \<in> set s"
  shows "\<exists>user pass err.
           ParseAuth verify (Some (h # hs)) = Inr (user, pass, err)
         \<and> (err = None \<or> err = Some CorruptInputError)
         \<and> (err = None \<longleftrightarrow>
               (Split CHR '':'' payload ! 0 = ''l2met'' \<and> Split CHR '':'' payload ! 1 \<noteq> [])
             \<or> verify payload \<noteq> None
             \<or> Split CHR '':'' payload ! 0 = []
             \<or> snd (DecodeString (Split CHR '':'' payload ! 0)))
         \<and> (Split CHR '':'' payload ! 0 = ''l2met'' \<and> Split CHR '':'' payload ! 1 \<noteq> [] \<longrightarrow>
               user = ''l2met'' \<and> pass = Split CHR '':'' payload ! 1)"
proof -
  let ?parts = "Split CHR '':'' payload"
  note unfold = ParseAuth_decoded [OF auth enc, of verify hs]
  have second: "?parts ! 0 = ''l2met'' \<Longrightarrow> index ?parts 1 = Inr (?parts ! 1)"
    using Split_second [of "CHR '':''" payload "''l2met''"] bare
    by (simp add: index_in_range)
  have later: "\<exists>user pass err.
      (case verify payload of
         Some s \<Rightarrow>
           (let parts = Split CHR '':'' s in
            case index parts 1 of
              Inl p \<Rightarrow> Inl p
            | Inr pass \<Rightarrow> Inr (parts ! 0, pass, None))
       | None \<Rightarrow>
           if length (?parts ! 0) > 0 then
             (case DecodeString (?parts ! 0) of
                (decodedPart, ok) \<Rightarrow>
                  (let outletCreds = Split CHR '':'' decodedPart;
                       err = (if ok then None else Some CorruptInputError)
                   in if length outletCreds > 1
                      then Inr (outletCreds ! 0, outletCreds ! 1, err)
                      else Inr (outletCreds ! 0, [], err)))
           else Inr ([], [], None)) = Inr (user, pass, err)
      \<and> (err = None \<or> err = Some CorruptInputError)
      \<and> (err = None \<longleftrightarrow> verify payload \<noteq> None \<or> ?parts ! 0 = [] \<or> snd (DecodeString (?parts ! 0)))"
  proof (cases "verify payload")
    case (Some s)
    then have "index (Split CHR '':'' s) 1 = Inr (Split CHR '':'' s ! 1)"
      using tok Split_has_sep [of "CHR '':''" s] by (simp add: index_in_range)
    with Some show ?thesis by (simp add: Let_def)
  next
    case None
    show ?thesis
    proof (cases "DecodeString (?parts ! 0)")
      case (Pair decodedPart ok)
      with None show ?thesis by (cases ok) (simp_all add: Let_def)
    qed
  qed
  show ?thesis
  proof (cases "?parts ! 0 = ''l2met''")
    case True
    note sentinel = this
    show ?thesis
    proof (cases "?parts ! 1 = []")
      case True
      with sentinel second later show ?thesis
        unfolding unfold by (simp add: Let_def)
    next
      case False
      with sentinel second show ?thesis
        unfolding unfold by (simp add: Let_def)
    qed
  next
    case False
    with later show ?thesis
      unfolding unfold by (simp add: Let_def)
  qed
qed


theorem ParseAuth_fallback_chain_witness:
  "SplitN2 CHR '' '' ''Basic WW05aU9uQjNNZz09Omlnbm9yZWQ='' = [''Basic'', ''WW05aU9uQjNNZz09Omlnbm9yZWQ='']
   \<and> DecodeString ''WW05aU9uQjNNZz09Omlnbm9yZWQ='' = (''Ym9iOnB3Mg==:ignored'', True)
   \<and> DecodeString ''Ym9iOnB3Mg=='' = (''bob:pw2'', True)
   \<and> (\<exists>user pass. ParseAuth (\<lambda>s. None) (Some [''Basic WW05aU9uQjNNZz09Omlnbm9yZWQ=''])
          = Inr (user, pass, None))"
proof -
  have auth: "SplitN2 CHR '' '' ''Basic WW05aU9uQjNNZz09Omlnbm9yZWQ='' = [''Basic'', ''WW05aU9uQjNNZz09Omlnbm9yZWQ='']"
    by (simp add: SplitN2_def)
  have enc: "DecodeString ''WW05aU9uQjNNZz09Omlnbm9yZWQ='' = (''Ym9iOnB3Mg==:ignored'', True)"
    by code_simp
  have inner: "DecodeString ''Ym9iOnB3Mg=='' = (''bob:pw2'', True)"
    by code_simp
  have bare: "''Ym9iOnB3Mg==:ignored'' \<noteq> ''l2met''"
    by simp
  have tok: "\<forall>s. (\<lambda>s. None :: string option) ''Ym9iOnB3Mg==:ignored'' = Some s \<longrightarrow> CHR '':'' \<in> set s"
    by simp
  have first: "Split CHR '':'' ''Ym9iOnB3Mg==:ignored'' ! 0 = ''Ym9iOnB3Mg==''"
    by (simp add: Split_hd)
  from ParseAuth_fallback_chain [OF auth enc bare tok, of "[]"]
  have "\<exists>user pass. ParseAuth (\<lambda>s. None) (Some [''Basic WW05aU9uQjNNZz09Omlnbm9yZWQ=''])
          = Inr (user, pass, None)"
    unfolding first inner by auto
  with auth enc inner show ?thesis by blast
qed

text \<open>
  The payload \<open>justauser\<close> has no colon, is not the sentinel and is no token. Its nine
  characters are not valid base64: the user returned is the six bytes decoded from the
  first eight of them, and the error is not \<open>nil\<close>.
\<close>

theorem ParseAuth_justauser_counterexample:
  "DecodeString ''anVzdGF1c2Vy'' = (''justauser'', True)
   \<and> ParseAuth (\<lambda>s. None) (Some [''Basic anVzdGF1c2Vy''])
       = Inr ([CHR 0x8E, CHR 0xEB, CHR ''-'', CHR ''j'', CHR 0xEB, CHR 0x1E], [], Some CorruptInputError)"
proof
  show "DecodeString ''anVzdGF1c2Vy'' = (''justauser'', True)"
    by code_simp
  show "ParseAuth (\<lambda>s. None) (Some [''Basic anVzdGF1c2Vy''])
       = Inr ([CHR 0x8E, CHR 0xEB, CHR ''-'', CHR ''j'', CHR 0xEB, CHR 0x1E], [], Some CorruptInputError)"
    by code_simp
qed

text \<open>
  C5. For the payload \<open>l2met\<close> without a colon the first field is the sentinel and there is
  no second field: \<open>len(parts[1])\<close> is evaluated on a slice of one element, and
  \<open>ParseAuth\<close> panics before it reaches the later schemes, whatever the keys are.
\<close>

theorem ParseAuth_bare_sentinel_panics:
  "ParseAuth verify (Some [''Basic bDJtZXQ='']) = Inl IndexOutOfRange"
proof -
  have auth: "SplitN2 CHR '' '' ''Basic bDJtZXQ='' = [''Basic'', ''bDJtZXQ='']"
    by (simp add: SplitN2_def)
  have enc: "DecodeString ''bDJtZXQ='' = (''l2met'', True)"
    by code_simp
  show ?thesis
    unfolding ParseAuth_decoded [OF auth enc] by (simp add: index_def)
qed

section \<open>Aggregation\<close>

lemma group_by_snoc: "group_by f (xs @ [x]) = group_insert (f x) x (group_by f xs)"
  by (simp add: group_by_def)

lemma group_by_Nil: "group_by f [] = []"
  by (simp add: group_by_def)

lemma group_insert_filter_same:
  "filter (\<lambda>g. fst g \<noteq> k) (group_insert k x gs) = filter (\<lambda>g. fst g \<noteq> k) gs"
proof (induction gs)
  case Nil
  then show ?case by simp
next
  case (Cons g gs)
  obtain k'' ys where g: "g = (k'', ys)" by (cases g)
  show ?case unfolding g using Cons.IH by simp
qed

lemma group_insert_filter_other:
  "k' \<noteq> k \<Longrightarrow>
   filter (\<lambda>g. fst g \<noteq> k) (group_insert k' x gs) = group_insert k' x (filter (\<lambda>g. fst g \<noteq> k) gs)"
proof (induction gs)
  case Nil
  then show ?case by simp
next
  case (Cons g gs)
  obtain k'' ys where g: "g = (k'', ys)" by (cases g)
  show ?case unfolding g using Cons by simp
qed

lemma group_by_filter:
  "group_by f (filter (\<lambda>x. f x \<noteq> k) xs) = filter (\<lambda>g. fst g \<noteq> k) (group_by f xs)"
proof (induction xs rule: rev_induct)
  case Nil
  then show ?case by (simp add: group_by_Nil)
next
  case (snoc x xs)
  show ?case
  proof (cases "f x = k")
    case True
    then show ?thesis
      using snoc.IH by (simp add: group_by_snoc group_insert_filter_same)
  next
    case False
    then show ?thesis
      using snoc.IH by (simp add: group_by_snoc group_insert_filter_other)
  qed
qed


lemma group_insert_members:
  assumes "\<forall>g \<in> set gs. snd g \<noteq> [] \<and> (\<forall>y \<in> set (snd g). f y = fst g \<and> P y)" and "P x"
  shows "\<forall>g \<in> set (group_insert (f x) x gs). snd g \<noteq> [] \<and> (\<forall>y \<in> set (snd g). f y = fst g \<and> P y)"
  using assms
proof (induction gs)
  case Nil
  then show ?case by simp
next
  case (Cons g gs)
  obtain k ys where g: "g = (k, ys)" by (cases g)
  from Cons.prems(1) have tl: "\<forall>g \<in> set gs. snd g \<noteq> [] \<and> (\<forall>y \<in> set (snd g). f y = fst g \<and> P y)"
    by simp
  from Cons.prems(1) have hd: "ys \<noteq> [] \<and> (\<forall>y \<in> set ys. f y = k \<and> P y)"
    by (simp add: g)
  show ?case
  proof (cases "f x = k")
    case True
    with hd tl Cons.prems(2) show ?thesis by (simp add: g)
  next
    case False
    with hd Cons.IH [OF tl Cons.prems(2)] show ?thesis by (simp add: g)
  qed
qed

lemma group_by_members:
  "\<forall>g \<in> set (group_by f xs). snd g \<noteq> [] \<and> (\<forall>y \<in> set (snd g). f y = fst g \<and> y \<in> set xs)"
proof (induction xs rule: rev_induct)
  case Nil
  then show ?case by (simp add: group_by_Nil)
next
  case (snoc x xs)
  have "\<forall>g \<in> set (group_by f xs). snd g \<noteq> [] \<and> (\<forall>y \<in> set (snd g). f y = fst g \<and> y \<in> set (xs @ [x]))"
    using snoc.IH by simp
  moreover have "x \<in> set (xs @ [x])" by simp
  ultimately show ?case
    unfolding group_by_snoc by (rule group_insert_members)
qed

lemma sample_in_set: "metrics \<noteq> [] \<Longrightarrow> metrics ! (n mod length metrics) \<in> set metrics"
  by simp






lemma aggregate_group_unknown:
  assumes ne: "metrics \<noteq> []"
    and kind: "\<forall>m \<in> set metrics. m ''type'' \<noteq> Some ''counter'' \<and> m ''type'' \<noteq> Some ''last''
                 \<and> m ''type'' \<noteq> Some ''list''"
  shows "aggregate_group w bucket (k, metrics) = Inr []"
proof -
  let ?s = "metrics ! (sample_index w metrics mod length metrics)"
  have s: "?s \<in> set metrics" using ne by (rule sample_in_set)
  have "?s ''type'' \<noteq> Some ''counter'' \<and> ?s ''type'' \<noteq> Some ''last'' \<and> ?s ''type'' \<noteq> Some ''list''"
    using kind s by blast
  then show ?thesis
    using ne by (simp add: aggregate_group_def Let_def)
qed

lemma map_rb_drop_empty:
  assumes "\<forall>g \<in> set gs. fst g = k \<longrightarrow> blk g = Inr []"
  shows "(case map_rb blk gs of Inl e \<Rightarrow> Inl e | Inr outs \<Rightarrow> Inr (concat outs)) =
         (case map_rb blk (filter (\<lambda>g. fst g \<noteq> k) gs) of Inl e \<Rightarrow> Inl e | Inr outs \<Rightarrow> Inr (concat outs))"
  using assms
proof (induction gs)
  case Nil
  then show ?case by simp
next
  case (Cons g gs)
  then have IH: "(case map_rb blk gs of Inl e \<Rightarrow> Inl e | Inr outs \<Rightarrow> Inr (concat outs)) =
         (case map_rb blk (filter (\<lambda>g. fst g \<noteq> k) gs) of Inl e \<Rightarrow> Inl e | Inr outs \<Rightarrow> Inr (concat outs))"
    by simp
  show ?case
  proof (cases "fst g = k")
    case True
    with Cons.prems have "blk g = Inr []" by simp
    with True IH show ?thesis by (simp split: sum.splits)
  next
    case False
    with IH show ?thesis by (simp split: sum.splits)
  qed
qed











text \<open>
  C8. When every sample of a metric key has a kind that is none of \<open>counter\<close>, \<open>last\<close>
  and \<open>list\<close>, the group of this key raises nothing and gives no measurement, and
  \<open>aggregate\<close> returns for all the samples what it returns for the samples of the other
  keys alone, be it their measurements or the error one of them raises.
\<close>

theorem aggregate_unknown_kind:
  assumes kind: "\<forall>m \<in> set metrics. m ''mkey'' = k \<longrightarrow>
      m ''type'' \<noteq> Some ''counter'' \<and> m ''type'' \<noteq> Some ''last'' \<and> m ''type'' \<noteq> Some ''list''"
  shows "(\<forall>g. (k, g) \<in> set (group_by (\<lambda>metric. metric ''mkey'') metrics) \<longrightarrow>
            aggregate_group w bucket (k, g) = Inr [])
       \<and> aggregate w bucket metrics = aggregate w bucket (filter (\<lambda>m. m ''mkey'' \<noteq> k) metrics)"
proof -
  let ?gs = "group_by (\<lambda>metric. metric ''mkey'') metrics"
  have 1: "aggregate_group w bucket (k, g) = Inr []" if "(k, g) \<in> set ?gs" for g
  proof -
    from group_by_members [of "\<lambda>metric. metric ''mkey''" metrics] that
    have "g \<noteq> []" and "\<forall>y \<in> set g. y ''mkey'' = k \<and> y \<in> set metrics"
      by force+
    with kind show ?thesis
      by (intro aggregate_group_unknown) auto
  qed
  have "\<forall>g \<in> set ?gs. fst g = k \<longrightarrow> aggregate_group w bucket g = Inr []"
    using 1 by auto
  from map_rb_drop_empty [OF this]
  have 2: "aggregate w bucket metrics = aggregate w bucket (filter (\<lambda>m. m ''mkey'' \<noteq> k) metrics)"
    by (simp add: aggregate_def group_by_filter)
  from 1 2 show ?thesis by blast
qed




theorem aggregate_unknown_kind_witness:
  "aggregate_group example_world 1364403240 (Some ''13'', [fetch example_world ''13:1364403240:c1'']) = Inr []
   \<and> aggregate example_world 1364403240 (map (fetch example_world) [''7:1364403240:a1'', ''13:1364403240:c1'', ''7:1364403240:a2'']) = aggregate example_world 1364403240 (map (fetch example_world) [''7:1364403240:a1'', ''7:1364403240:a2''])
   \<and> aggregate example_world 1364403240 (map (fetch example_world) [''7:1364403240:a1'', ''7:1364403240:a2''])
       = Inr [\<lparr>m_name = ''hits.count'', m_source = Some ''web.1'', m_type = ''gauge'',
               m_display_units_long = Some ''requests'', m_measure_time = 1364403240,
               m_value = Some 3\<rparr>]"
proof -
  have "list_all (\<lambda>m. m ''mkey'' \<noteq> Some ''13'' \<or>
            (m ''type'' \<noteq> Some ''counter'' \<and> m ''type'' \<noteq> Some ''last'' \<and> m ''type'' \<noteq> Some ''list''))
          (map (fetch example_world) [''7:1364403240:a1'', ''13:1364403240:c1'', ''7:1364403240:a2''])"
    by code_simp
  then have kind: "\<forall>m \<in> set (map (fetch example_world) [''7:1364403240:a1'', ''13:1364403240:c1'', ''7:1364403240:a2'']). m ''mkey'' = Some ''13'' \<longrightarrow>
      m ''type'' \<noteq> Some ''counter'' \<and> m ''type'' \<noteq> Some ''last'' \<and> m ''type'' \<noteq> Some ''list''"
    by (auto simp add: list_all_iff)
  note uk = aggregate_unknown_kind [OF kind, of example_world 1364403240]
  have gs: "group_by (\<lambda>metric. metric ''mkey'') (map (fetch example_world) [''7:1364403240:a1'', ''13:1364403240:c1'', ''7:1364403240:a2'']) =
      [(Some ''7'', (map (fetch example_world) [''7:1364403240:a1'', ''7:1364403240:a2''])), (Some ''13'', [fetch example_world ''13:1364403240:c1''])]"
    by (simp add: group_by_def fetch_def key_prefix_def)
  have rest: "filter (\<lambda>m. m ''mkey'' \<noteq> Some ''13'') (map (fetch example_world) [''7:1364403240:a1'', ''13:1364403240:c1'', ''7:1364403240:a2'']) = (map (fetch example_world) [''7:1364403240:a1'', ''7:1364403240:a2''])"
    by (simp add: fetch_def key_prefix_def)
  have 1: "aggregate_group example_world 1364403240 (Some ''13'', [fetch example_world ''13:1364403240:c1'']) = Inr []"
  proof -
    have "(Some ''13'', [fetch example_world ''13:1364403240:c1''])
        \<in> set (group_by (\<lambda>metric. metric ''mkey'') (map (fetch example_world) [''7:1364403240:a1'', ''13:1364403240:c1'', ''7:1364403240:a2'']))"
      by (simp only: gs) simp
    with uk [THEN conjunct1] show ?thesis by blast
  qed
  have 2: "aggregate example_world 1364403240 (map (fetch example_world) [''7:1364403240:a1'', ''13:1364403240:c1'', ''7:1364403240:a2'']) = aggregate example_world 1364403240 (map (fetch example_world) [''7:1364403240:a1'', ''7:1364403240:a2''])"
    using uk [THEN conjunct2] by (simp only: rest)
  have 3: "aggregate example_world 1364403240 (map (fetch example_world) [''7:1364403240:a1'', ''7:1364403240:a2''])
       = Inr [\<lparr>m_name = ''hits.count'', m_source = Some ''web.1'', m_type = ''gauge'',
               m_display_units_long = Some ''requests'', m_measure_time = 1364403240,
               m_value = Some 3\<rparr>]"
    by code_simp
  from 1 2 3 show ?thesis by blast
qed

section \<open>The snapshot\<close>

lemma select_rb_total: "\<forall>x \<in> set xs. blk x = Inr (P x) \<Longrightarrow> select_rb blk xs = Inr (filter P xs)"
  by (induction xs) simp_all

lemma in_partition_numbered:
  "mx \<noteq> 0 \<Longrightarrow> key_prefix key = Some s \<Longrightarrow> Integer_parse w s = Some n \<Longrightarrow>
   in_partition w p mx key = Inr (n mod mx = p)"
  by (simp add: in_partition_def Integer_rb_def)

lemma retained_numbered:
  assumes pos: "0 < mx"
    and num: "\<forall>key \<in> set (redis_keys w bucket).
                \<exists>s. key_prefix key = Some s \<and> Integer_parse w s = Some (num key)"
  shows "retained w p mx bucket = Inr (filter (\<lambda>key. num key mod mx = p) (redis_keys w bucket))"
proof -
  have "\<forall>key \<in> set (redis_keys w bucket). in_partition w p mx key = Inr (num key mod mx = p)"
    using pos num by (auto simp add: in_partition_numbered)
  then show ?thesis
    unfolding retained_def by (rule select_rb_total)
qed

text \<open>
  C2. Let the partition count be positive and let every key of the scan carry a number
  before its first colon. Then \<open>snapshot\<close> for a partition keeps exactly the scanned keys
  whose number modulo the count is the partition, in the order of the scan, and goes on
  with the records of these keys; whether a key is kept depends on the key, the count and
  the partition alone. Every scanned key is kept for exactly one partition from \<open>0\<close> to
  the count less one.
\<close>

theorem snapshot_partition:
  assumes pos: "0 < mx"
    and num: "\<forall>key \<in> set (redis_keys w bucket).
                \<exists>s. key_prefix key = Some s \<and> Integer_parse w s = Some (num key)"
  shows "retained w p mx bucket = Inr (filter (\<lambda>key. num key mod mx = p) (redis_keys w bucket))
       \<and> snapshot w p mx bucket =
           Inr (each_tenant w bucket
                  (tenant_groups w (filter (\<lambda>key. num key mod mx = p) (redis_keys w bucket))))
       \<and> (\<forall>key \<in> set (redis_keys w bucket). \<exists>!q. 0 \<le> q \<and> q < mx \<and> is_retained w q mx bucket key)"
proof -
  have r: "retained w q mx bucket = Inr (filter (\<lambda>key. num key mod mx = q) (redis_keys w bucket))" for q
    using pos num by (rule retained_numbered)
  have s: "snapshot w p mx bucket =
           Inr (each_tenant w bucket
                  (tenant_groups w (filter (\<lambda>key. num key mod mx = p) (redis_keys w bucket))))"
    by (simp add: snapshot_def r tenant_groups_def)
  have u: "\<exists>!q. 0 \<le> q \<and> q < mx \<and> is_retained w q mx bucket key" if "key \<in> set (redis_keys w bucket)" for key
  proof
    show "0 \<le> num key mod mx \<and> num key mod mx < mx \<and> is_retained w (num key mod mx) mx bucket key"
      using pos that by (simp add: is_retained_def r)
  next
    fix q
    assume "0 \<le> q \<and> q < mx \<and> is_retained w q mx bucket key"
    then show "q = num key mod mx"
      by (simp add: is_retained_def r)
  qed
  from r [of p] s u show ?thesis by blast
qed

theorem snapshot_partition_witness:
  "retained example_world 1 3 1364403240 = Inr [''7:1364403240:a1'', ''7:1364403240:a2'', ''10:1364403240:b1'', ''7:1364403240:a3'', ''13:1364403240:c1'']
   \<and> (\<exists>!q. 0 \<le> q \<and> q < 3 \<and> is_retained example_world q 3 1364403240 ''12:1364403240:d1'')
   \<and> is_retained example_world 0 3 1364403240 ''12:1364403240:d1''"
proof -
  have pos: "(0::int) < 3" by simp
  have "list_all (\<lambda>key. case key_prefix key of
                           None \<Rightarrow> False
                         | Some s \<Rightarrow> Integer_parse example_world s = Some (example_num key))
          (redis_keys example_world 1364403240)"
    by code_simp
  then have num: "\<forall>key \<in> set (redis_keys example_world 1364403240).
      \<exists>s. key_prefix key = Some s \<and> Integer_parse example_world s = Some (example_num key)"
    by (auto simp add: list_all_iff split: option.splits)
  note sp = snapshot_partition [OF pos num, of 1]
  have f: "filter (\<lambda>key. example_num key mod 3 = 1) (redis_keys example_world 1364403240) = [''7:1364403240:a1'', ''7:1364403240:a2'', ''10:1364403240:b1'', ''7:1364403240:a3'', ''13:1364403240:c1'']"
    by code_simp
  have d: "''12:1364403240:d1'' \<in> set (redis_keys example_world 1364403240)"
    by (simp add: example_world_def)
  have 1: "retained example_world 1 3 1364403240 = Inr [''7:1364403240:a1'', ''7:1364403240:a2'', ''10:1364403240:b1'', ''7:1364403240:a3'', ''13:1364403240:c1'']"
    using sp [THEN conjunct1] by (simp only: f)
  have 2: "\<exists>!q. 0 \<le> q \<and> q < 3 \<and> is_retained example_world q 3 1364403240 ''12:1364403240:d1''"
    using sp [THEN conjunct2, THEN conjunct2] d by blast
  have 3: "is_retained example_world 0 3 1364403240 ''12:1364403240:d1''"
    by code_simp
  from 1 2 3 show ?thesis by blast
qed

lemma submissions_append: "submissions (xs @ ys) = submissions xs + submissions ys"
  by (simp add: submissions_def)

lemma error_counts_append: "error_counts (xs @ ys) = error_counts xs + error_counts ys"
  by (simp add: error_counts_def)

lemma tenant_failed:
  assumes "tenant_fails w bucket g = Some e"
  shows "submissions (tenant w bucket g) = 0 \<and> error_counts (tenant w bucket g) = 1
       \<and> Logged (fst g) e \<in> set (tenant w bucket g)"
proof -
  obtain consumer_id metrics where g: "g = (consumer_id, metrics)" by (cases g)
  show ?thesis
  proof (cases "librato_client w consumer_id")
    case (Inl e')
    with assms show ?thesis
      by (simp add: g tenant_fails_def tenant_def rescue_def submissions_def error_counts_def)
  next
    case (Inr cl)
    note cl = this
    show ?thesis
    proof (cases "aggregate w bucket metrics")
      case (Inl e')
      with assms cl show ?thesis
        by (simp add: g tenant_fails_def tenant_def rescue_def submissions_def error_counts_def)
    next
      case (Inr q)
      with assms cl show ?thesis
        by (simp add: g tenant_fails_def tenant_def rescue_def submissions_def error_counts_def
            split: if_splits)
    qed
  qed
qed

lemma tenant_passed:
  assumes "tenant_fails w bucket g = None"
  shows "submissions (tenant w bucket g) = (if tenant_batch w bucket g \<noteq> [] then 1 else 0)
       \<and> error_counts (tenant w bucket g) = 0"
proof -
  obtain consumer_id metrics where g: "g = (consumer_id, metrics)" by (cases g)
  show ?thesis
  proof (cases "librato_client w consumer_id")
    case (Inl e')
    with assms show ?thesis
      by (simp add: g tenant_fails_def)
  next
    case (Inr cl)
    note cl = this
    show ?thesis
    proof (cases "aggregate w bucket metrics")
      case (Inl e')
      with assms cl show ?thesis
        by (simp add: g tenant_fails_def)
    next
      case (Inr q)
      with assms cl show ?thesis
        by (simp add: g tenant_fails_def tenant_def tenant_batch_def submissions_def error_counts_def
            split: if_splits)
    qed
  qed
qed

lemma each_tenant_counts:
  "submissions (each_tenant w bucket gs) =
     length (filter (\<lambda>g. tenant_fails w bucket g = None \<and> tenant_batch w bucket g \<noteq> []) gs)
   \<and> error_counts (each_tenant w bucket gs) =
     length (filter (\<lambda>g. tenant_fails w bucket g \<noteq> None) gs)"
proof (induction gs)
  case Nil
  then show ?case by (simp add: submissions_def error_counts_def)
next
  case (Cons g gs)
  show ?case
  proof (cases "tenant_fails w bucket g")
    case None
    with Cons tenant_passed [OF None] show ?thesis
      by (simp add: submissions_append error_counts_append)
  next
    case (Some e)
    with Cons tenant_failed [OF Some] show ?thesis
      by (simp add: submissions_append error_counts_append)
  qed
qed

lemma each_tenant_logged:
  "g \<in> set gs \<Longrightarrow> tenant_fails w bucket g = Some e \<Longrightarrow> Logged (fst g) e \<in> set (each_tenant w bucket gs)"
  by (induction gs) (auto dest: tenant_failed)

lemma filter_split_length:
  "length (filter P xs) + length (filter (\<lambda>x. \<not> P x) xs) = length xs"
  by (induction xs) simp_all

text \<open>
  C3. When the scan and the selection of the keys raise nothing, \<open>snapshot\<close> returns and
  has gone through every tenant group. A group whose lookup, aggregation or submission
  raises adds one count of \<open>outlet.metric-post-error\<close> and one line of the log with its
  consumer id, and the groups after it are processed all the same. There is one
  submission for each group that raises nothing and whose queue is not empty; a group
  whose queue is empty is passed over without a submission. So one failing group among
  \<open>N\<close> groups whose queues are not empty leaves \<open>N - 1\<close> submissions.
\<close>

theorem snapshot_tenants:
  assumes keys: "retained w p mx bucket = Inr keys"
  shows "\<exists>evs. snapshot w p mx bucket = Inr evs
       \<and> submissions evs =
           length (filter (\<lambda>g. tenant_fails w bucket g = None \<and> tenant_batch w bucket g \<noteq> [])
                     (tenant_groups w keys))
       \<and> error_counts evs =
           length (filter (\<lambda>g. tenant_fails w bucket g \<noteq> None) (tenant_groups w keys))
       \<and> (\<forall>g \<in> set (tenant_groups w keys). \<forall>e. tenant_fails w bucket g = Some e \<longrightarrow>
             Logged (fst g) e \<in> set evs)
       \<and> (length (filter (\<lambda>g. tenant_fails w bucket g \<noteq> None) (tenant_groups w keys)) = 1
            \<and> (\<forall>g \<in> set (tenant_groups w keys). tenant_fails w bucket g = None \<longrightarrow>
                  tenant_batch w bucket g \<noteq> [])
          \<longrightarrow> submissions evs = length (tenant_groups w keys) - 1)"
proof -
  let ?gs = "tenant_groups w keys"
  let ?evs = "each_tenant w bucket ?gs"
  have 1: "snapshot w p mx bucket = Inr ?evs"
    by (simp add: snapshot_def keys tenant_groups_def)
  note 2 = each_tenant_counts [of w bucket ?gs]
  have 3: "\<forall>g \<in> set ?gs. \<forall>e. tenant_fails w bucket g = Some e \<longrightarrow> Logged (fst g) e \<in> set ?evs"
    by (simp add: each_tenant_logged)
  have 4: "submissions ?evs = length ?gs - 1"
    if one: "length (filter (\<lambda>g. tenant_fails w bucket g \<noteq> None) ?gs) = 1"
    and full: "\<forall>g \<in> set ?gs. tenant_fails w bucket g = None \<longrightarrow> tenant_batch w bucket g \<noteq> []"
  proof -
    have "filter (\<lambda>g. tenant_fails w bucket g = None \<and> tenant_batch w bucket g \<noteq> []) ?gs
        = filter (\<lambda>g. \<not> tenant_fails w bucket g \<noteq> None) ?gs"
      using full by (intro filter_cong) auto
    then have "submissions ?evs = length (filter (\<lambda>g. \<not> tenant_fails w bucket g \<noteq> None) ?gs)"
      using 2 by simp
    with filter_split_length [of "\<lambda>g. tenant_fails w bucket g \<noteq> None" ?gs] one
    show ?thesis by simp
  qed
  from 1 2 3 4 show ?thesis by blast
qed

theorem snapshot_tenants_witness:
  "retained example_world 1 3 1364403300 = Inr [''7:1364403300:a4'', ''10:1364403300:b2'']
   \<and> length (tenant_groups example_world [''7:1364403300:a4'', ''10:1364403300:b2'']) = 2
   \<and> (\<exists>evs. snapshot example_world 1 3 1364403300 = Inr evs
          \<and> submissions evs = 1 \<and> error_counts evs = 1
          \<and> Logged (Some ''ghost'') (ServiceError ''no such consumer'') \<in> set evs)"
proof -
  let ?gs = "tenant_groups example_world [''7:1364403300:a4'', ''10:1364403300:b2'']"
  have keys: "retained example_world 1 3 1364403300 = Inr [''7:1364403300:a4'', ''10:1364403300:b2'']"
    by code_simp
  have n: "length ?gs = 2"
    by code_simp
  have one: "length (filter (\<lambda>g. tenant_fails example_world 1364403300 g \<noteq> None) ?gs) = 1"
    by code_simp
  have "list_all (\<lambda>g. tenant_fails example_world 1364403300 g \<noteq> None
                        \<or> tenant_batch example_world 1364403300 g \<noteq> []) ?gs"
    by code_simp
  then have full: "\<forall>g \<in> set ?gs. tenant_fails example_world 1364403300 g = None \<longrightarrow>
      tenant_batch example_world 1364403300 g \<noteq> []"
    by (auto simp add: list_all_iff)
  have "list_ex (\<lambda>g. fst g = Some ''ghost''
          \<and> tenant_fails example_world 1364403300 g = Some (ServiceError ''no such consumer'')) ?gs"
    by code_simp
  then obtain g where g: "g \<in> set ?gs" "fst g = Some ''ghost''"
      "tenant_fails example_world 1364403300 g = Some (ServiceError ''no such consumer'')"
    by (auto simp add: list_ex_iff)
  from snapshot_tenants [OF keys] obtain evs where
    evs: "snapshot example_world 1 3 1364403300 = Inr evs"
    and err: "error_counts evs =
        length (filter (\<lambda>g. tenant_fails example_world 1364403300 g \<noteq> None) ?gs)"
    and logged: "\<forall>g \<in> set ?gs. \<forall>e. tenant_fails example_world 1364403300 g = Some e \<longrightarrow>
        Logged (fst g) e \<in> set evs"
    and less: "length (filter (\<lambda>g. tenant_fails example_world 1364403300 g \<noteq> None) ?gs) = 1
        \<and> (\<forall>g \<in> set ?gs. tenant_fails example_world 1364403300 g = None \<longrightarrow>
              tenant_batch example_world 1364403300 g \<noteq> [])
        \<longrightarrow> submissions evs = length ?gs - 1"
    by blast
  from less one full n have "submissions evs = 1" by simp
  moreover from err one have "error_counts evs = 1" by simp
  moreover from logged g have "Logged (Some ''ghost'') (ServiceError ''no such consumer'') \<in> set evs"
    by force
  ultimately show ?thesis using keys n evs by blast
qed

text \<open>
  Three tenant groups: the lookup of \<open>ghost\<close> raises, the queue of \<open>zed\<close> stays empty
  because its only sample is of no kind that \<open>aggregate\<close> knows, and \<open>acme\<close> is
  submitted. One group fails and there is one submission, not two.
\<close>

theorem snapshot_empty_queue_counterexample:
  "map fst (tenant_groups example_world [''7:1364403240:a1'', ''7:1364403240:a2'', ''10:1364403240:b1'', ''7:1364403240:a3'', ''13:1364403240:c1'']) = [Some ''acme'', Some ''ghost'', Some ''zed'']
   \<and> map (tenant_fails example_world 1364403240) (tenant_groups example_world [''7:1364403240:a1'', ''7:1364403240:a2'', ''10:1364403240:b1'', ''7:1364403240:a3'', ''13:1364403240:c1''])
       = [None, Some (ServiceError ''no such consumer''), None]
   \<and> snapshot example_world 1 3 1364403240 =
       Inr [Counted 1 ''outlet.librato.metrics'',
            Submitted \<lparr>email = Some ''ops@example.com'', token = Some ''t0k3n''\<rparr>
              [\<lparr>m_name = ''hits.count'', m_source = Some ''web.1'', m_type = ''gauge'',
                m_display_units_long = Some ''requests'', m_measure_time = 1364403240,
                m_value = Some 6\<rparr>],
            Counted 1 ''outlet.metric-post-error'',
            Logged (Some ''ghost'') (ServiceError ''no such consumer'')]
   \<and> (case snapshot example_world 1 3 1364403240 of Inl e \<Rightarrow> 0 | Inr evs \<Rightarrow> submissions evs) = 1"
proof (intro conjI)
  show "map fst (tenant_groups example_world [''7:1364403240:a1'', ''7:1364403240:a2'', ''10:1364403240:b1'', ''7:1364403240:a3'', ''13:1364403240:c1'']) = [Some ''acme'', Some ''ghost'', Some ''zed'']"
    by code_simp
  show "map (tenant_fails example_world 1364403240) (tenant_groups example_world [''7:1364403240:a1'', ''7:1364403240:a2'', ''10:1364403240:b1'', ''7:1364403240:a3'', ''13:1364403240:c1''])
       = [None, Some (ServiceError ''no such consumer''), None]"
    by code_simp
  show "snapshot example_world 1 3 1364403240 =
       Inr [Counted 1 ''outlet.librato.metrics'',
            Submitted \<lparr>email = Some ''ops@example.com'', token = Some ''t0k3n''\<rparr>
              [\<lparr>m_name = ''hits.count'', m_source = Some ''web.1'', m_type = ''gauge'',
                m_display_units_long = Some ''requests'', m_measure_time = 1364403240,
                m_value = Some 6\<rparr>],
            Counted 1 ''outlet.metric-post-error'',
            Logged (Some ''ghost'') (ServiceError ''no such consumer'')]"
    by code_simp
  show "(case snapshot example_world 1 3 1364403240 of Inl e \<Rightarrow> 0 | Inr evs \<Rightarrow> submissions evs) = 1"
    by code_simp
qed

end
